theory Spec2Isabelle
  imports Complex_Main "HOL-Library.AList" "HOL-Library.Multiset"
    "HOL-Library.Product_Lexorder"
begin

section \<open>Python strings\<close>

text \<open>
  A Python \<^verbatim>\<open>str\<close> is a sequence of Unicode code points, and \<^verbatim>\<open>len\<close> counts code
  points. A string is therefore modelled as a list of code points (natural numbers), not
  as a list of bytes. ASCII literals of the source are written with \<open>lit\<close>.
\<close>

type_synonym pystr = "nat list"

definition lit :: "string \<Rightarrow> pystr" where
  "lit s = map of_char s"

text \<open>The code points that \<^verbatim>\<open>str.strip()\<close> and \<^verbatim>\<open>str.split()\<close> treat as whitespace.\<close>

definition isspace :: "nat \<Rightarrow> bool" where
  "isspace c \<longleftrightarrow>
     (9 \<le> c \<and> c \<le> 13) \<or> (28 \<le> c \<and> c \<le> 32) \<or> c = 133 \<or> c = 160 \<or> c = 5760 \<or>
     (8192 \<le> c \<and> c \<le> 8202) \<or> c = 8232 \<or> c = 8233 \<or> c = 8239 \<or> c = 8287 \<or>
     c = 12288"

definition strip :: "pystr \<Rightarrow> pystr" where
  "strip s = rev (dropWhile isspace (rev (dropWhile isspace s)))"

text \<open>\<^verbatim>\<open>s.split(sep)\<close> for a one-character separator: never the empty list.\<close>

fun split_sep :: "nat \<Rightarrow> pystr \<Rightarrow> pystr list" where
  "split_sep sep [] = [[]]"
| "split_sep sep (c # cs) =
     (if c = sep then [] # split_sep sep cs
      else (case split_sep sep cs of
              [] \<Rightarrow> [[c]]
            | p # ps \<Rightarrow> (c # p) # ps))"

definition newline :: nat where
  "newline = 10"

text \<open>\<^verbatim>\<open>s.split()\<close>: the maximal runs of non-whitespace characters.\<close>

function split_ws :: "pystr \<Rightarrow> pystr list" where
  "split_ws s =
     (case dropWhile isspace s of
        [] \<Rightarrow> []
      | c # cs \<Rightarrow>
          takeWhile (\<lambda>x. \<not> isspace x) (c # cs) # split_ws (dropWhile (\<lambda>x. \<not> isspace x) cs))"
  by pat_completeness auto
termination
proof (relation "measure length")
  show "wf (measure length)" by simp
next
  fix s :: pystr and c cs
  assume a: "dropWhile isspace s = c # cs"
  have "length (dropWhile (\<lambda>x. \<not> isspace x) cs) \<le> length cs"
    by (rule length_dropWhile_le)
  moreover have "length (c # cs) \<le> length s"
    using length_dropWhile_le [of isspace s] a by simp
  ultimately show "(dropWhile (\<lambda>x. \<not> isspace x) cs, s) \<in> measure length"
    by simp
qed

text \<open>\<^verbatim>\<open>str(n)\<close> for a non-negative integer: its decimal digits.\<close>

fun str_nat :: "nat \<Rightarrow> pystr" where
  "str_nat n = (if n < 10 then [48 + n] else str_nat (n div 10) @ [48 + n mod 10])"

declare str_nat.simps [simp del]

text \<open>\<^verbatim>\<open>sep.join(xs)\<close>.\<close>

fun join :: "pystr \<Rightarrow> pystr list \<Rightarrow> pystr" where
  "join sep [] = []"
| "join sep [x] = x"
| "join sep (x # y # ys) = x @ sep @ join sep (y # ys)"

declare split_ws.simps [simp del]

section \<open>QueryGenerator: \<^verbatim>\<open>BaseResearcher.generate_queries\<close>\<close>

text \<open>
  What the language-model provider does on one attempt. The request itself may time out
  or raise; otherwise it yields a stream of chunks which ends normally, by a timeout or
  by another exception. A chunk whose \<^verbatim>\<open>choices\<close> list is empty makes
  \<^verbatim>\<open>chunk.choices[0]\<close> raise \<^verbatim>\<open>IndexError\<close>.
\<close>

datatype chunk = NoChoices | Choice (finish_stop: bool) (delta_content: "pystr option")

datatype stream_end = Exhausted | StreamTimeout | StreamError

datatype response = RequestTimeout | RequestError | Stream "chunk list" stream_end

datatype failure =
    TimeoutError | ProviderError | IndexError | ValueError | TypeError | AttributeError
  | OverflowError | BroadcastError

text \<open>
  The status broadcaster is an external collaborator. A call of
  \<^verbatim>\<open>send_status_update\<close> returns or raises; which of the two is given by an oracle
  that sees what has been logged before the call and the notification sent:
  \<open>bc evs e\<close> holds when the call raises (\<open>BroadcastError\<close> stands for whatever it
  raises). Every attempted notification, and every back-off sleep, is appended to the
  log. \<open>ws\<close> below stands for \<^verbatim>\<open>websocket_manager and job_id\<close>: without it nothing
  is sent.
\<close>

type_synonym 'e broadcaster = "'e list \<Rightarrow> 'e \<Rightarrow> bool"

datatype event =
    QueryGenerating pystr nat
  | QueryGenerated pystr nat
  | FallbackWarning
  | GenerationError
  | Sleep nat

record gen_state =
  queries :: "pystr list"
  current_query :: pystr
  current_query_number :: nat
  events :: "event list"

definition notify ::
    "bool \<Rightarrow> event broadcaster \<Rightarrow> event \<Rightarrow> gen_state \<Rightarrow> failure option \<times> gen_state" where
  "notify ws bc e st =
     (if ws then
        (if bc (events st) e then Some BroadcastError else None,
         st\<lparr>events := events st @ [e]\<rparr>)
      else (None, st))"

text \<open>The loop \<^verbatim>\<open>for query in parts[:-1]\<close>.\<close>

fun finalize_parts ::
    "bool \<Rightarrow> event broadcaster \<Rightarrow> pystr list \<Rightarrow> gen_state \<Rightarrow> failure option \<times> gen_state" where
  "finalize_parts ws bc [] st = (None, st)"
| "finalize_parts ws bc (p # ps) st =
     (let query = strip p in
      if query \<noteq> [] then
        (let st1 = st\<lparr>queries := queries st @ [query]\<rparr>
         in case notify ws bc (QueryGenerated query (length (queries st1))) st1 of
              (Some f, st2) \<Rightarrow> (Some f, st2)
            | (None, st2) \<Rightarrow>
                finalize_parts ws bc ps
                  (st2\<lparr>current_query_number := current_query_number st2 + 1\<rparr>))
      else finalize_parts ws bc ps st)"

text \<open>The body of \<^verbatim>\<open>if content:\<close> for one chunk.\<close>

definition process_content ::
    "bool \<Rightarrow> event broadcaster \<Rightarrow> pystr \<Rightarrow> gen_state \<Rightarrow> failure option \<times> gen_state" where
  "process_content ws bc content st =
     (let st1 = st\<lparr>current_query := current_query st @ content\<rparr>
      in case notify ws bc (QueryGenerating (current_query st1) (current_query_number st1)) st1 of
           (Some f, st2) \<Rightarrow> (Some f, st2)
         | (None, st2) \<Rightarrow>
             if newline \<in> set (current_query st2) then
               (let parts = split_sep newline (current_query st2)
                in finalize_parts ws bc (butlast parts) (st2\<lparr>current_query := last parts\<rparr>))
             else (None, st2))"

text \<open>
  The loop \<^verbatim>\<open>async for chunk in response\<close>: it stops at a chunk whose finish reason
  is \<^verbatim>\<open>"stop"\<close> (the content of that chunk is not read), skips a chunk whose content
  is \<^verbatim>\<open>None\<close> or empty, and fails when the stream or a notification raises.
\<close>

fun consume ::
    "bool \<Rightarrow> event broadcaster \<Rightarrow> chunk list \<Rightarrow> stream_end \<Rightarrow> gen_state
       \<Rightarrow> failure option \<times> gen_state" where
  "consume ws bc [] Exhausted st = (None, st)"
| "consume ws bc [] StreamTimeout st = (Some TimeoutError, st)"
| "consume ws bc [] StreamError st = (Some ProviderError, st)"
| "consume ws bc (NoChoices # cs) e st = (Some IndexError, st)"
| "consume ws bc (Choice stop content # cs) e st =
     (if stop then (None, st)
      else (case content of
              None \<Rightarrow> consume ws bc cs e st
            | Some c \<Rightarrow>
                if c \<noteq> [] then
                  (case process_content ws bc c st of
                     (Some f, st1) \<Rightarrow> (Some f, st1)
                   | (None, st1) \<Rightarrow> consume ws bc cs e st1)
                else consume ws bc cs e st))"

text \<open>After the loop: the trailing buffer.\<close>

definition finish_stream ::
    "bool \<Rightarrow> event broadcaster \<Rightarrow> gen_state \<Rightarrow> failure option \<times> gen_state" where
  "finish_stream ws bc st =
     (if strip (current_query st) \<noteq> [] then
        (let query = strip (current_query st);
             st1 = st\<lparr>queries := queries st @ [query]\<rparr>
         in case notify ws bc (QueryGenerated query (length (queries st1))) st1 of
              (Some f, st2) \<Rightarrow> (Some f, st2)
            | (None, st2) \<Rightarrow>
                (None, st2\<lparr>current_query_number := current_query_number st2 + 1\<rparr>))
      else (None, st))"

definition init_state :: "event list \<Rightarrow> gen_state" where
  "init_state evs =
     \<lparr>queries = [], current_query = [], current_query_number = 1, events = evs\<rparr>"

text \<open>
  One attempt, started with the log so far: the log after it and either the exception
  that reaches the inner handler or the queries returned (the empty check and the cut to
  four queries are here).
\<close>

definition run_attempt ::
    "bool \<Rightarrow> event broadcaster \<Rightarrow> event list \<Rightarrow> response
       \<Rightarrow> event list \<times> (failure + pystr list)" where
  "run_attempt ws bc evs r =
     (case r of
        RequestTimeout \<Rightarrow> (evs, Inl TimeoutError)
      | RequestError \<Rightarrow> (evs, Inl ProviderError)
      | Stream cs e \<Rightarrow>
          (case consume ws bc cs e (init_state evs) of
             (Some f, st) \<Rightarrow> (events st, Inl f)
           | (None, st) \<Rightarrow>
               (case finish_stream ws bc st of
                  (Some f, st1) \<Rightarrow> (events st1, Inl f)
                | (None, st1) \<Rightarrow>
                    if queries st1 = [] then (events st1, Inl ValueError)
                    else (events st1, Inr (take 4 (queries st1))))))"

text \<open>\<^verbatim>\<open>_fallback_queries\<close>, with the f-strings written out.\<close>

definition fallback_queries :: "pystr \<Rightarrow> pystr \<Rightarrow> nat \<Rightarrow> pystr list" where
  "fallback_queries analyst company year =
     (if analyst = lit ''company_analyzer'' then
        [company @ lit '' company overview '' @ str_nat year,
         company @ lit '' business model'',
         company @ lit '' products and services'',
         company @ lit '' leadership team'']
      else if analyst = lit ''financial_analyzer'' then
        [company @ lit '' financial performance '' @ str_nat year,
         company @ lit '' revenue '' @ str_nat year,
         company @ lit '' financial reports '' @ str_nat year,
         company @ lit '' profit margin'']
      else if analyst = lit ''industry_analyzer'' then
        [company @ lit '' industry position '' @ str_nat year,
         company @ lit '' market share'',
         company @ lit '' competitors analysis'',
         company @ lit '' industry trends '' @ str_nat year]
      else if analyst = lit ''news_analyzer'' then
        [company @ lit '' latest news '' @ str_nat year,
         company @ lit '' recent developments'',
         company @ lit '' press releases '' @ str_nat year,
         company @ lit '' recent announcements'']
      else
        [company @ lit '' overview '' @ str_nat year,
         company @ lit '' recent news '' @ str_nat year,
         company @ lit '' financial reports '' @ str_nat year,
         company @ lit '' industry analysis '' @ str_nat year])"

definition max_retries :: nat where
  "max_retries = 3"

definition retry_delay :: nat where
  "retry_delay = 2"

record researcher =
  analyst_type :: pystr
  company :: pystr
  current_year :: nat
  ws_present :: bool

text \<open>
  The two handlers of \<^verbatim>\<open>generate_queries\<close> after the last attempt has failed. The
  inner handler sends the \<^verbatim>\<open>"warning"\<close> notification and returns the fallback list.
  When that notification raises, the outer handler is entered: it sends the
  \<^verbatim>\<open>"error"\<close> notification, inside no \<^verbatim>\<open>try\<close>, and returns the fallback list; when
  this one raises too, the exception reaches the caller.
\<close>

definition last_failure ::
    "researcher \<Rightarrow> event broadcaster \<Rightarrow> event list
       \<Rightarrow> event list \<times> (failure + pystr list option)" where
  "last_failure r bc evs =
     (let fallback = fallback_queries (analyst_type r) (company r) (current_year r)
      in if ws_present r then
           (if bc evs FallbackWarning then
              (if bc (evs @ [FallbackWarning]) GenerationError then
                 (evs @ [FallbackWarning, GenerationError], Inl BroadcastError)
               else (evs @ [FallbackWarning, GenerationError], Inr (Some fallback)))
            else (evs @ [FallbackWarning], Inr (Some fallback)))
         else (evs, Inr (Some fallback)))"

text \<open>
  The loop \<^verbatim>\<open>for attempt in range(max_retries)\<close>; \<open>env attempt\<close> is what the provider
  does on that attempt. Every exception of an attempt, a raising notification included,
  is caught by the inner handler, which sleeps and goes on to the next attempt unless it
  was the last. The result \<open>Inl\<close> is an exception that reaches the caller;
  \<open>Inr None\<close> stands for the loop ending without a \<^verbatim>\<open>return\<close> (Python then returns
  \<^verbatim>\<open>None\<close>).
\<close>

fun retry_loop ::
    "researcher \<Rightarrow> event broadcaster \<Rightarrow> (nat \<Rightarrow> response) \<Rightarrow> nat list \<Rightarrow> event list
       \<Rightarrow> event list \<times> (failure + pystr list option)" where
  "retry_loop r bc env [] evs = (evs, Inr None)"
| "retry_loop r bc env (attempt # rest) evs =
     (case run_attempt (ws_present r) bc evs (env attempt) of
        (evs1, Inr qs) \<Rightarrow> (evs1, Inr (Some qs))
      | (evs1, Inl f) \<Rightarrow>
          if attempt < max_retries - 1 then
            retry_loop r bc env rest (evs1 @ [Sleep (retry_delay * 2 ^ attempt)])
          else last_failure r bc evs1)"

definition generate_queries ::
    "researcher \<Rightarrow> event broadcaster \<Rightarrow> (nat \<Rightarrow> response)
       \<Rightarrow> event list \<times> (failure + pystr list option)" where
  "generate_queries r bc env = retry_loop r bc env [0..<max_retries] []"

subsection \<open>The stream as a whole\<close>

text \<open>
  What the chunk loop amounts to, stated on the whole stream: \<open>stream_failure\<close> is the
  exception the stream makes the loop end with (if any), \<open>stream_text\<close> the
  concatenation of the contents read before the loop ends, \<open>nonblank_lines\<close> the
  stripped, non-blank lines of a text. \<open>tracks acc st\<close> relates the loop state to the
  text \<open>acc\<close> read so far: the buffer is what follows the last newline, the queries are
  the stripped non-blank lines before it.
\<close>

definition nonblank_lines :: "pystr \<Rightarrow> pystr list" where
  "nonblank_lines acc = filter (\<lambda>q. q \<noteq> []) (map strip (split_sep newline acc))"

fun stream_failure :: "chunk list \<Rightarrow> stream_end \<Rightarrow> failure option" where
  "stream_failure [] Exhausted = None"
| "stream_failure [] StreamTimeout = Some TimeoutError"
| "stream_failure [] StreamError = Some ProviderError"
| "stream_failure (NoChoices # cs) e = Some IndexError"
| "stream_failure (Choice stop content # cs) e = (if stop then None else stream_failure cs e)"

fun stream_text :: "chunk list \<Rightarrow> pystr" where
  "stream_text [] = []"
| "stream_text (NoChoices # cs) = []"
| "stream_text (Choice stop content # cs) =
     (if stop then [] else (case content of None \<Rightarrow> [] | Some c \<Rightarrow> c) @ stream_text cs)"

definition tracks :: "pystr \<Rightarrow> gen_state \<Rightarrow> bool" where
  "tracks acc st \<longleftrightarrow>
     queries st = filter (\<lambda>q. q \<noteq> []) (map strip (butlast (split_sep newline acc))) \<and>
     current_query st = last (split_sep newline acc)"

text \<open>
  The broadcaster is quiet when it is absent or none of its calls raises. What an
  attempt then comes to depends on the provider's response alone: the request or the
  stream raises, or the stream yields no query (\<^verbatim>\<open>ValueError\<close>), or the attempt
  returns the first four stripped non-blank lines of the streamed text.
  \<open>first_success\<close> is the result of the first attempt, in the order given, that
  returns.
\<close>

definition quiet :: "bool \<Rightarrow> 'e broadcaster \<Rightarrow> bool" where
  "quiet ws bc \<longleftrightarrow> \<not> ws \<or> (\<forall>evs e. \<not> bc evs e)"

definition attempt_result :: "response \<Rightarrow> failure + pystr list" where
  "attempt_result r =
     (case r of
        RequestTimeout \<Rightarrow> Inl TimeoutError
      | RequestError \<Rightarrow> Inl ProviderError
      | Stream cs e \<Rightarrow>
          (case stream_failure cs e of
             Some f \<Rightarrow> Inl f
           | None \<Rightarrow>
               if nonblank_lines (stream_text cs) = [] then Inl ValueError
               else Inr (take 4 (nonblank_lines (stream_text cs)))))"

fun first_success :: "(nat \<Rightarrow> response) \<Rightarrow> nat list \<Rightarrow> pystr list option" where
  "first_success env [] = None"
| "first_success env (a # rest) =
     (case attempt_result (env a) of
        Inr qs \<Rightarrow> Some qs
      | Inl f \<Rightarrow> first_success env rest)"

text \<open>
  The literal reading of the specification: the content before each newline is one
  query, and a non-empty trailing buffer is a final one.
\<close>

definition spec_queries :: "pystr \<Rightarrow> pystr list" where
  "spec_queries acc =
     (let parts = split_sep newline acc
      in butlast parts @ (if last parts \<noteq> [] then [last parts] else []))"

text \<open>
  Examples: a researcher without broadcaster and one with; a broadcaster that never
  raises and one that raises on the two notifications of the handlers; a provider that
  streams the two tokens \<^verbatim>\<open>"A\n"\<close> and \<^verbatim>\<open>"\nB"\<close> on every attempt, one whose
  request times out on every attempt, and one whose first stream is blank and whose
  second is cut into the tokens \<^verbatim>\<open>"A\n"\<close>, \<^verbatim>\<open>"B"\<close>, \<^verbatim>\<open>"\nC"\<close>.
\<close>

definition ex_analyst :: researcher where
  "ex_analyst = \<lparr>analyst_type = lit ''news_analyzer'', company = lit ''Acme'',
     current_year = 2026, ws_present = False\<rparr>"

definition ex_analyst_ws :: researcher where
  "ex_analyst_ws = ex_analyst\<lparr>ws_present := True\<rparr>"

definition ex_silent :: "'e broadcaster" where
  "ex_silent evs e = False"

definition ex_raising :: "event broadcaster" where
  "ex_raising evs e = (e = FallbackWarning \<or> e = GenerationError)"

definition ex_blank_line :: "nat \<Rightarrow> response" where
  "ex_blank_line a = Stream [Choice False (Some [65, 10]), Choice False (Some [10, 66])] Exhausted"

definition ex_timeouts :: "nat \<Rightarrow> response" where
  "ex_timeouts a = RequestTimeout"

definition ex_retry :: "nat \<Rightarrow> response" where
  "ex_retry a =
     (if a = 0 then Stream [Choice False (Some [32, 10])] Exhausted
      else Stream [Choice False (Some [65, 10]), Choice False (Some [66]),
                   Choice False (Some [10, 67]), Choice True None] Exhausted)"

section \<open>SearchFanout: \<^verbatim>\<open>search_single_query\<close> and \<^verbatim>\<open>search_documents\<close>\<close>

text \<open>
  What \<^verbatim>\<open>d.get(key)\<close> finds in a provider dictionary: no such key, the value
  \<^verbatim>\<open>None\<close>, or a value. A search hit carries the four keys the code reads. A Python
  \<^verbatim>\<open>dict\<close> keeps insertion order and at most one entry per key; it is modelled as an
  association list, \<^verbatim>\<open>d[k] = v\<close> as \<^const>\<open>AList.update\<close>.
\<close>

datatype 'a field = Missing | Null | Val 'a

record hit =
  h_url :: "pystr field"
  h_title :: "pystr field"
  h_content :: "pystr field"
  h_score :: "real field"

record doc =
  title :: "pystr option"
  content :: pystr
  query :: pystr
  url :: pystr
  source :: pystr
  score :: "real option"

type_synonym docs = "(pystr \<times> doc) list"

text \<open>Truthiness of a looked-up string: a missing key, \<^verbatim>\<open>None\<close> and \<^verbatim>\<open>""\<close> are falsy.\<close>

definition truthy :: "pystr field \<Rightarrow> bool" where
  "truthy f = (case f of Val s \<Rightarrow> s \<noteq> [] | _ \<Rightarrow> False)"

text \<open>
  The title of a stored document. \<open>clean_title\<close> is imported from the references module,
  which is not part of the sources at hand, and \<open>lower\<close> is Python's \<^verbatim>\<open>str.lower\<close>; both
  are parameters. \<^verbatim>\<open>item.get("title", "")\<close> is \<^verbatim>\<open>""\<close> for a missing key and
  \<^verbatim>\<open>None\<close> for a null title; neither is cleaned.
\<close>

definition normalize_title ::
    "(pystr \<Rightarrow> pystr) \<Rightarrow> (pystr \<Rightarrow> pystr) \<Rightarrow> pystr \<Rightarrow> pystr field \<Rightarrow> pystr option" where
  "normalize_title clean_title lower u t =
     (case t of
        Missing \<Rightarrow> Some []
      | Null \<Rightarrow> None
      | Val s \<Rightarrow>
          if s \<noteq> [] then
            (let c = clean_title s
             in if lower c = lower u \<or> strip c = [] then Some [] else Some c)
          else Some s)"

definition get_score :: "real field \<Rightarrow> real option" where
  "get_score f = (case f of Missing \<Rightarrow> Some 0 | Null \<Rightarrow> None | Val x \<Rightarrow> Some x)"

text \<open>The dictionary stored under \<^verbatim>\<open>url\<close> for a hit whose url and content are truthy.\<close>

definition make_doc ::
    "(pystr \<Rightarrow> pystr) \<Rightarrow> (pystr \<Rightarrow> pystr) \<Rightarrow> pystr \<Rightarrow> pystr \<Rightarrow> pystr \<Rightarrow> hit \<Rightarrow> doc" where
  "make_doc clean_title lower q u c item =
     \<lparr>title = normalize_title clean_title lower u (h_title item), content = c, query = q,
      url = u, source = lit ''web_search'', score = get_score (h_score item)\<rparr>"

text \<open>The loop over the hits of one query (the same in both functions).\<close>

fun merge_items ::
    "(pystr \<Rightarrow> pystr) \<Rightarrow> (pystr \<Rightarrow> pystr) \<Rightarrow> pystr \<Rightarrow> hit list \<Rightarrow> docs \<Rightarrow> docs" where
  "merge_items clean_title lower q [] ds = ds"
| "merge_items clean_title lower q (item # items) ds =
     (if \<not> truthy (h_content item) \<or> \<not> truthy (h_url item) then
        merge_items clean_title lower q items ds
      else
        (case (h_url item, h_content item) of
           (Val u, Val c) \<Rightarrow>
             merge_items clean_title lower q items
               (AList.update u (make_doc clean_title lower q u c item) ds)
         | _ \<Rightarrow> merge_items clean_title lower q items ds))"

text \<open>The loop \<^verbatim>\<open>for query, result in zip(queries, results)\<close>.\<close>

fun merge_results ::
    "(pystr \<Rightarrow> pystr) \<Rightarrow> (pystr \<Rightarrow> pystr) \<Rightarrow> (pystr \<times> hit list) list \<Rightarrow> docs \<Rightarrow> docs" where
  "merge_results clean_title lower [] ds = ds"
| "merge_results clean_title lower ((q, items) # qrs) ds =
     merge_results clean_title lower qrs (merge_items clean_title lower q items ds)"

text \<open>
  The search provider: asked with a query and the topic parameter, it raises or returns
  a result whose \<^verbatim>\<open>"results"\<close> list is given (the empty list when the key is missing).
\<close>

datatype topic = TopicNews | TopicFinance

datatype search_response = SearchRaises | SearchResults "hit list"

type_synonym provider = "pystr \<Rightarrow> topic option \<Rightarrow> search_response"

datatype search_event =
    ProviderRequest pystr "topic option"
  | QuerySearching pystr
  | QuerySearched pystr nat
  | QueryError pystr
  | QueriesGenerated nat
  | SearchStarted nat
  | SearchComplete nat

text \<open>\<^verbatim>\<open>result.get("results", [])\<close> of a response that did not raise.\<close>

definition hits_of :: "search_response \<Rightarrow> hit list" where
  "hits_of x = (case x of SearchResults items \<Rightarrow> items | SearchRaises \<Rightarrow> [])"

definition search_topic :: "pystr \<Rightarrow> topic option" where
  "search_topic analyst =
     (if analyst = lit ''news_analyst'' then Some TopicNews
      else if analyst = lit ''financial_analyst'' then Some TopicFinance
      else None)"

definition ws_events :: "bool \<Rightarrow> search_event list \<Rightarrow> search_event list" where
  "ws_events ws evs = (if ws then evs else [])"

text \<open>
  The body of the \<^verbatim>\<open>try\<close> of \<^verbatim>\<open>search_single_query\<close>: the request and both
  notifications are inside it. The result \<open>Inl\<close> is the exception that reaches the
  handler.
\<close>

definition single_query_try ::
    "(pystr \<Rightarrow> pystr) \<Rightarrow> (pystr \<Rightarrow> pystr) \<Rightarrow> researcher \<Rightarrow> search_event broadcaster \<Rightarrow> provider
       \<Rightarrow> pystr \<Rightarrow> search_event list \<times> (failure + docs)" where
  "single_query_try clean_title lower r bc prov q =
     (let ws = ws_present r;
          tp = search_topic (analyst_type r)
      in if ws \<and> bc [] (QuerySearching q) then ([QuerySearching q], Inl BroadcastError)
         else
           (let evs = ws_events ws [QuerySearching q] @ [ProviderRequest q tp]
            in case prov q tp of
                 SearchRaises \<Rightarrow> (evs, Inl ProviderError)
               | SearchResults items \<Rightarrow>
                   (let ds = merge_items clean_title lower q items []
                    in if ws \<and> bc evs (QuerySearched q (length ds)) then
                         (evs @ [QuerySearched q (length ds)], Inl BroadcastError)
                       else (evs @ ws_events ws [QuerySearched q (length ds)], Inr ds))))"

text \<open>
  \<^verbatim>\<open>search_single_query\<close>: a query that is empty or has fewer than three words is
  turned away before anything is sent. The handler sends the \<^verbatim>\<open>"query_error"\<close>
  notification, inside no \<^verbatim>\<open>try\<close>, and returns the empty dictionary; when the
  notification raises, the exception reaches the caller. \<open>ws_present r\<close> says here
  that the arguments \<^verbatim>\<open>websocket_manager\<close> and \<^verbatim>\<open>job_id\<close> are both given.
\<close>

definition search_single_query ::
    "(pystr \<Rightarrow> pystr) \<Rightarrow> (pystr \<Rightarrow> pystr) \<Rightarrow> researcher \<Rightarrow> search_event broadcaster \<Rightarrow> provider
       \<Rightarrow> pystr \<Rightarrow> search_event list \<times> (failure + docs)" where
  "search_single_query clean_title lower r bc prov q =
     (if q = [] \<or> length (split_ws q) < 3 then ([], Inr [])
      else
        (case single_query_try clean_title lower r bc prov q of
           (evs, Inr ds) \<Rightarrow> (evs, Inr ds)
         | (evs, Inl f) \<Rightarrow>
             if ws_present r then
               (evs @ [QueryError q],
                if bc evs (QueryError q) then Inl BroadcastError else Inr [])
             else (evs, Inr [])))"

text \<open>
  \<^verbatim>\<open>search_documents\<close>: one provider call per query is created, whatever the query;
  \<^verbatim>\<open>asyncio.gather\<close> raises when one of them raises, and the whole batch is then
  given up. The handler sends nothing. The notifications of this function are recorded
  in the log; a call that one of them aborts returns no dictionary and is not described
  here.
\<close>

definition search_documents ::
    "(pystr \<Rightarrow> pystr) \<Rightarrow> (pystr \<Rightarrow> pystr) \<Rightarrow> researcher \<Rightarrow> provider \<Rightarrow> pystr list
       \<Rightarrow> search_event list \<times> docs" where
  "search_documents clean_title lower r prov qs =
     (if qs = [] then ([], [])
      else
        (let tp = search_topic (analyst_type r);
             evs = ws_events (ws_present r)
                     [QueriesGenerated (length qs), SearchStarted (length qs)] @
                   map (\<lambda>q. ProviderRequest q tp) qs;
             results = map (\<lambda>q. prov q tp) qs
         in if SearchRaises \<in> set results then (evs, [])
            else
              (let merged = merge_results clean_title lower
                     (zip qs (map hits_of results)) []
               in (evs @ ws_events (ws_present r) [SearchComplete (length merged)], merged))))"

subsection \<open>The merge, stated on the whole batch\<close>

text \<open>
  The hits that are stored, in the order in which the merge meets them, each as the entry
  it writes.
\<close>

fun item_entries ::
    "(pystr \<Rightarrow> pystr) \<Rightarrow> (pystr \<Rightarrow> pystr) \<Rightarrow> pystr \<Rightarrow> hit list \<Rightarrow> docs" where
  "item_entries clean_title lower q [] = []"
| "item_entries clean_title lower q (item # items) =
     (case (h_url item, h_content item) of
        (Val u, Val c) \<Rightarrow>
          if u \<noteq> [] \<and> c \<noteq> [] then
            (u, make_doc clean_title lower q u c item) # item_entries clean_title lower q items
          else item_entries clean_title lower q items
      | _ \<Rightarrow> item_entries clean_title lower q items)"

fun batch_entries ::
    "(pystr \<Rightarrow> pystr) \<Rightarrow> (pystr \<Rightarrow> pystr) \<Rightarrow> (pystr \<times> hit list) list \<Rightarrow> docs" where
  "batch_entries clean_title lower [] = []"
| "batch_entries clean_title lower ((q, items) # qrs) =
     item_entries clean_title lower q items @ batch_entries clean_title lower qrs"

text \<open>A lower-casing of ASCII letters, to run the model on examples.\<close>

definition ascii_lower :: "pystr \<Rightarrow> pystr" where
  "ascii_lower s = map (\<lambda>c. if 65 \<le> c \<and> c \<le> 90 then c + 32 else c) s"

text \<open>
  An example researcher and an example provider, to run the search stage on, and a
  broadcaster that raises on the \<^verbatim>\<open>"query_error"\<close> notification only.
\<close>

definition ex_researcher :: researcher where
  "ex_researcher = \<lparr>analyst_type = lit ''news_analyst'', company = lit ''Acme'',
     current_year = 2026, ws_present = True\<rparr>"

definition ex_provider :: provider where
  "ex_provider q tp =
     (if q = lit ''acme company overview'' then
        SearchResults
          [\<lparr>h_url = Val (lit ''a.io''), h_title = Val (lit ''A.IO''),
            h_content = Val (lit ''first''), h_score = Val 0.5\<rparr>,
           \<lparr>h_url = Val (lit ''b.io''), h_title = Missing,
            h_content = Val [], h_score = Missing\<rparr>]
      else if q = lit ''acme latest news'' then
        SearchResults
          [\<lparr>h_url = Val (lit ''a.io''), h_title = Val (lit ''Acme''),
            h_content = Val (lit ''second''), h_score = Missing\<rparr>]
      else if q = lit ''Tesla news'' then
        SearchResults
          [\<lparr>h_url = Val (lit ''t.io''), h_title = Val (lit ''T.IO''),
            h_content = Val (lit ''cars''), h_score = Null\<rparr>]
      else SearchRaises)"

definition ex_error_raises :: "search_event broadcaster" where
  "ex_error_raises evs e = (case e of QueryError q \<Rightarrow> True | _ \<Rightarrow> False)"

section \<open>SectionSynthesizer: document selection in \<^verbatim>\<open>generate_category_briefing\<close>\<close>

text \<open>
  A Python \<^verbatim>\<open>float\<close>, as far as the order on floats goes: a finite number (taken as a
  real number), an infinity, or NaN. Every comparison with NaN is false.
\<close>

datatype pyfloat = NegInf | Finite real | PosInf | NaN


text \<open>
  A curated document, as far as the selection reads it. What
  \<^verbatim>\<open>float(doc.get('evaluation', {}).get('overall_score', '0'))\<close> meets: a missing key
  (the default \<^verbatim>\<open>'0'\<close> is converted), a number or a string that \<^verbatim>\<open>float\<close> converts
  to the given value, a string that it does not convert (\<^verbatim>\<open>ValueError\<close>), an integer
  beyond the range of the floats (\<^verbatim>\<open>OverflowError\<close>), a value of another type such as
  \<^verbatim>\<open>None\<close> (\<^verbatim>\<open>TypeError\<close>), or an \<^verbatim>\<open>'evaluation'\<close> entry that is not a dictionary,
  so that its \<^verbatim>\<open>.get\<close> raises \<^verbatim>\<open>AttributeError\<close>. The title is absent, \<^verbatim>\<open>None\<close> or
  a string; \<^verbatim>\<open>raw_content\<close> and \<^verbatim>\<open>content\<close> are absent, \<^verbatim>\<open>None\<close> or strings.
\<close>

datatype score_field =
    ScoreMissing
  | ScoreValue pyfloat
  | ScoreNotNumeric
  | ScoreTooLarge
  | ScoreWrongType
  | EvaluationNotDict

record curated_doc =
  c_title :: "pystr field"
  c_raw_content :: "pystr field"
  c_content :: "pystr field"
  c_score :: score_field
























section \<open>SectionSynthesizer: \<^verbatim>\<open>generate_category_briefing\<close> and \<^verbatim>\<open>create_briefings\<close>\<close>

datatype category = Financial | News | Industry | Company

text \<open>
  The synthesizer's surroundings: the language model and the sort. Asked for a category
  with the selected document texts (the prompt is made of these, the category's template
  and the context of the run, which is fixed), \<^verbatim>\<open>generate_content\<close> raises or returns a
  response with a text. \<open>sorted_nan\<close> is the order that \<^verbatim>\<open>sorted\<close> returns for items
  of which a key is NaN.
\<close>

datatype llm_response = LlmRaises | LlmText pystr





text \<open>
  The pipeline state, as far as the briefing and editor nodes read and write it. A slot
  or field that is \<open>None\<close> is a key the dictionary does not have. \<open>rs_editor\<close> is the
  value under \<^verbatim>\<open>'editor'\<close>: something that is not a dictionary, or a dictionary with
  its \<^verbatim>\<open>'report'\<close> entry.
\<close>

datatype editor_value = NotADict | EditorDict "pystr option"

record research_state =
  rs_ws :: bool
  rs_company :: pystr
  rs_curated :: "category \<Rightarrow> (pystr \<times> curated_doc) list"
  rs_slot :: "category \<Rightarrow> pystr option"
  rs_briefings :: "(category \<times> pystr) list option"
  rs_references :: "pystr list"
  rs_report :: "pystr option"
  rs_status :: "pystr option"
  rs_editor :: "editor_value option"
  rs_messages :: "pystr list"











subsection \<open>An invariant of the concurrent executions\<close>






text \<open>An example state: three categories have one curated document each, one has none.\<close>

definition ex_curated :: "category \<Rightarrow> (pystr \<times> curated_doc) list" where
  "ex_curated c =
     (case c of
        Company \<Rightarrow> []
      | Financial \<Rightarrow> [(lit ''u1'', \<lparr>c_title = Val (lit ''F''), c_raw_content = Missing,
           c_content = Val (lit ''f''), c_score = ScoreValue (Finite 1)\<rparr>)]
      | News \<Rightarrow> [(lit ''u2'', \<lparr>c_title = Val (lit ''N''), c_raw_content = Missing,
           c_content = Val (lit ''n''), c_score = ScoreMissing\<rparr>)]
      | Industry \<Rightarrow> [(lit ''u3'', \<lparr>c_title = Val (lit ''I''), c_raw_content = Missing,
           c_content = Val (lit ''i''), c_score = ScoreMissing\<rparr>)])"

definition ex_state :: research_state where
  "ex_state =
     \<lparr>rs_ws = False, rs_company = lit ''Acme'', rs_curated = ex_curated,
      rs_slot = (\<lambda>c. None), rs_briefings = None, rs_references = [], rs_report = None,
      rs_status = None, rs_editor = None, rs_messages = []\<rparr>"


definition ex_final :: research_state where
  "ex_final =
     ex_state\<lparr>rs_slot := (\<lambda>c. if c = Financial then Some (lit ''funding'') else Some []),
              rs_briefings := Some [(Financial, lit ''funding'')]\<rparr>"

section \<open>ReportCompiler: \<^verbatim>\<open>Editor.compile_briefings\<close> and \<^verbatim>\<open>Editor.edit_report\<close>\<close>

datatype editor_event =
    Substep pystr
  | CompileRequest pystr
  | SweepRequest pystr
  | ReportChunk pystr
  | EditorComplete pystr

text \<open>
  What the editor depends on: the compilation request (one answer, or an exception;
  an answer without text makes \<^verbatim>\<open>.strip()\<close> raise and counts as one), the clean-up
  request (a stream, as for the query generator), \<^verbatim>\<open>format_references_section\<close>,
  which is imported from the references module and may raise, and the status
  broadcaster: \<open>send_raises env evs e\<close> holds when \<^verbatim>\<open>send_status_update\<close>, called
  for the event \<open>e\<close> after the events \<open>evs\<close>, raises. The prompts are made of the text
  passed here and of the context of the run.
\<close>

record editor_env =
  compile_llm :: "pystr \<Rightarrow> llm_response"
  sweep_llm :: "pystr \<Rightarrow> response"
  format_references :: "pystr list \<Rightarrow> failure + pystr"
  send_raises :: "editor_event broadcaster"

text \<open>
  \<^verbatim>\<open>if websocket_manager := state.get('websocket_manager'): if job_id := ...: await
  websocket_manager.send_status_update(...)\<close>; \<open>ws\<close> says that both are there.
\<close>

definition ed_send ::
    "editor_env \<Rightarrow> bool \<Rightarrow> editor_event list \<Rightarrow> editor_event
       \<Rightarrow> failure option \<times> editor_event list" where
  "ed_send env ws evs e =
     (if ws then (if send_raises env evs e then Some BroadcastError else None, evs @ [e])
      else (None, evs))"

text \<open>
  \<^verbatim>\<open>compile_content\<close>: the join and the references are outside the \<^verbatim>\<open>try\<close>; a failing
  request falls back to the joined briefings.
\<close>

definition compile_content ::
    "editor_env \<Rightarrow> research_state \<Rightarrow> (category \<times> pystr) list
       \<Rightarrow> editor_event list \<times> (failure + pystr)" where
  "compile_content env st bs =
     (let combined_content = join [newline, newline] (map snd bs);
          refs = (if rs_references st \<noteq> [] then format_references env (rs_references st)
                  else Inr [])
      in case refs of
           Inl e \<Rightarrow> ([], Inl e)
         | Inr reference_text \<Rightarrow>
             (case compile_llm env combined_content of
                LlmRaises \<Rightarrow> ([CompileRequest combined_content], Inr (strip combined_content))
              | LlmText t \<Rightarrow>
                  ([CompileRequest combined_content],
                   Inr (if reference_text \<noteq> [] then
                          strip t @ [newline, newline] @ reference_text
                        else strip t))))"

text \<open>
  The chunk loop of \<^verbatim>\<open>content_sweep\<close>: the text is accumulated; the broadcast buffer is
  sent and emptied when it holds a sentence or line end and more than ten characters,
  and sent once more at the stop chunk. A send that raises ends the loop with its
  exception.
\<close>

definition has_boundary :: "pystr \<Rightarrow> bool" where
  "has_boundary b \<longleftrightarrow> 46 \<in> set b \<or> 33 \<in> set b \<or> 63 \<in> set b \<or> newline \<in> set b"

fun sweep_loop ::
    "editor_env \<Rightarrow> bool \<Rightarrow> chunk list \<Rightarrow> stream_end \<Rightarrow> pystr \<Rightarrow> pystr \<Rightarrow> editor_event list
       \<Rightarrow> failure option \<times> pystr \<times> editor_event list" where
  "sweep_loop env ws [] Exhausted acc buf evs = (None, acc, evs)"
| "sweep_loop env ws [] StreamTimeout acc buf evs = (Some TimeoutError, acc, evs)"
| "sweep_loop env ws [] StreamError acc buf evs = (Some ProviderError, acc, evs)"
| "sweep_loop env ws (NoChoices # cs) e acc buf evs = (Some IndexError, acc, evs)"
| "sweep_loop env ws (Choice stop chunk_text # cs) e acc buf evs =
     (if stop then
        (case ed_send env (ws \<and> buf \<noteq> []) evs (ReportChunk buf) of
           (f, evs') \<Rightarrow> (f, acc, evs'))
      else (case chunk_text of
              None \<Rightarrow> sweep_loop env ws cs e acc buf evs
            | Some t \<Rightarrow>
                if t \<noteq> [] then
                  (if has_boundary (buf @ t) \<and> length (buf @ t) > 10 then
                     (if ws \<and> send_raises env evs (ReportChunk (buf @ t)) then
                        (Some BroadcastError, acc @ t, evs @ [ReportChunk (buf @ t)])
                      else
                        sweep_loop env ws cs e (acc @ t) []
                          (snd (ed_send env ws evs (ReportChunk (buf @ t)))))
                   else sweep_loop env ws cs e (acc @ t) (buf @ t) evs)
                else sweep_loop env ws cs e acc buf evs))"

text \<open>
  \<^verbatim>\<open>content_sweep\<close>: the request and the loop are in a \<^verbatim>\<open>try\<close> whose handler returns
  the text that was passed in, stripped.
\<close>

definition content_sweep ::
    "editor_env \<Rightarrow> bool \<Rightarrow> pystr \<Rightarrow> editor_event list \<Rightarrow> editor_event list \<times> pystr" where
  "content_sweep env ws text_in evs =
     (case sweep_llm env text_in of
        RequestTimeout \<Rightarrow> (evs @ [SweepRequest text_in], strip text_in)
      | RequestError \<Rightarrow> (evs @ [SweepRequest text_in], strip text_in)
      | Stream cs e \<Rightarrow>
          (case sweep_loop env ws cs e [] [] (evs @ [SweepRequest text_in]) of
             (None, acc, evs') \<Rightarrow> (evs', strip acc)
           | (Some f, acc, evs') \<Rightarrow> (evs', strip text_in)))"

text \<open>
  The update of the state with the final report: \<^verbatim>\<open>state['report']\<close>,
  \<^verbatim>\<open>state['status']\<close> and \<^verbatim>\<open>state['editor']['report']\<close>.
\<close>

definition write_report :: "research_state \<Rightarrow> pystr \<Rightarrow> research_state" where
  "write_report st final_report =
     st\<lparr>rs_report := Some final_report,
        rs_status := Some (lit ''editor_complete''),
        rs_editor := Some (EditorDict (Some final_report))\<rparr>"

text \<open>
  \<^verbatim>\<open>edit_report\<close>: the whole body is in a \<^verbatim>\<open>try\<close> whose handler returns the empty
  string, so every notification that raises ends the call with the empty string. The
  state is written after the final text is found not to be blank, and before the final
  notification is sent. The call starts with the events \<open>evs\<close> already sent.
\<close>

definition edit_report ::
    "editor_env \<Rightarrow> research_state \<Rightarrow> (category \<times> pystr) list \<Rightarrow> editor_event list
       \<Rightarrow> editor_event list \<times> research_state \<times> pystr" where
  "edit_report env st bs evs =
     (let ws = rs_ws st
      in case ed_send env ws evs (Substep (lit ''compilation'')) of
           (Some f, evs0) \<Rightarrow> (evs0, st, [])
         | (None, evs0) \<Rightarrow>
      (case compile_content env st bs of
           (evs1, Inl e) \<Rightarrow> (evs0 @ evs1, st, [])
         | (evs1, Inr edited_report) \<Rightarrow>
             if edited_report = [] then (evs0 @ evs1, st, [])
             else
      (case ed_send env ws (evs0 @ evs1) (Substep (lit ''cleanup'')) of
           (Some f, evs2) \<Rightarrow> (evs2, st, [])
         | (None, evs2) \<Rightarrow>
      (case ed_send env ws evs2 (Substep (lit ''format'')) of
           (Some f, evs3) \<Rightarrow> (evs3, st, [])
         | (None, evs3) \<Rightarrow>
      (case content_sweep env ws edited_report evs3 of
           (evs4, final_report) \<Rightarrow>
             if strip final_report = [] then (evs4, st, [])
             else
      (case ed_send env ws evs4 (EditorComplete final_report) of
           (Some f, evs5) \<Rightarrow> (evs5, write_report st final_report, [])
         | (None, evs5) \<Rightarrow> (evs5, write_report st final_report, final_report)))))))"

text \<open>The names and the order of the \<^verbatim>\<open>briefing_keys\<close> dictionary of the editor.\<close>

definition editor_categories :: "category list" where
  "editor_categories = [Company, Industry, Financial, News]"

definition category_name :: "category \<Rightarrow> pystr" where
  "category_name c =
     (case c of
        Company \<Rightarrow> lit ''company''
      | Industry \<Rightarrow> lit ''industry''
      | Financial \<Rightarrow> lit ''financial''
      | News \<Rightarrow> lit ''news'')"

text \<open>The loop that collects the briefings: a slot that is missing or empty is skipped.\<close>

fun collect_briefings ::
    "research_state \<Rightarrow> category list \<Rightarrow> (category \<times> pystr) list \<times> pystr list" where
  "collect_briefings st [] = ([], [])"
| "collect_briefings st (c # cs) =
     (case collect_briefings st cs of
        (bs, msg) \<Rightarrow>
          (case rs_slot st c of
             None \<Rightarrow> (bs, (lit ''No '' @ category_name c @ lit '' briefing available'') # msg)
           | Some v \<Rightarrow>
               if v \<noteq> [] then
                 ((c, v) # bs,
                  (lit ''Found '' @ category_name c @ lit '' briefing ('' @
                     str_nat (length v) @ lit '' characters)'') # msg)
               else (bs, (lit ''No '' @ category_name c @ lit '' briefing available'') # msg)))"

definition no_briefings_notice :: pystr where
  "no_briefings_notice = [newline, 9888, 65039] @ lit '' No briefing sections available to compile''"

text \<open>
  \<^verbatim>\<open>compile_briefings\<close>: the two notifications at its start are in no \<^verbatim>\<open>try\<close>, so one
  that raises ends the call with its exception, before anything is collected. The
  call of \<^verbatim>\<open>edit_report\<close> is in a \<^verbatim>\<open>try\<close> (and does not raise). The message is appended
  to \<^verbatim>\<open>state['messages']\<close> at the end.
\<close>

definition compile_briefings ::
    "editor_env \<Rightarrow> research_state \<Rightarrow> editor_event list \<times> (failure + research_state)" where
  "compile_briefings env st =
     (let ws = rs_ws st;
          msg0 = [128209] @ lit '' Compiling final report for '' @ rs_company st @ lit ''...''
      in case ed_send env ws [] (Substep (lit ''initialization'')) of
           (Some f, evs0) \<Rightarrow> (evs0, Inl f)
         | (None, evs0) \<Rightarrow>
      (case ed_send env ws evs0 (Substep (lit ''collecting_briefings'')) of
           (Some f, evs1) \<Rightarrow> (evs1, Inl f)
         | (None, evs1) \<Rightarrow>
      (case collect_briefings st editor_categories of
           (individual_briefings, found) \<Rightarrow>
             if individual_briefings = [] then
               (evs1,
                Inr (st\<lparr>rs_messages := rs_messages st @
                     [join [newline] (msg0 # found @ [no_briefings_notice])]\<rparr>))
             else
               (case edit_report env st individual_briefings evs1 of
                  (evs2, st1, compiled_report) \<Rightarrow>
                    (evs2,
                     Inr (st1\<lparr>rs_messages := rs_messages st1 @
                       [join [newline] (msg0 # found)]\<rparr>))))))"

text \<open>The requests to the language model among the events of the editor.\<close>

definition is_request :: "editor_event \<Rightarrow> bool" where
  "is_request e = (case e of CompileRequest t \<Rightarrow> True | SweepRequest t \<Rightarrow> True | _ \<Rightarrow> False)"

text \<open>
  The two notifications that \<^verbatim>\<open>compile_briefings\<close> sends before it collects the
  briefings: \<open>start_raises env st\<close> holds when a broadcaster is there and one of them
  raises.
\<close>

definition start_raises :: "editor_env \<Rightarrow> research_state \<Rightarrow> bool" where
  "start_raises env st \<longleftrightarrow>
     rs_ws st \<and>
     (send_raises env [] (Substep (lit ''initialization'')) \<or>
      send_raises env [Substep (lit ''initialization'')] (Substep (lit ''collecting_briefings'')))"

text \<open>
  The message that \<^verbatim>\<open>compile_briefings\<close> appends when the state holds no briefing.
\<close>

definition no_briefings_message :: "research_state \<Rightarrow> pystr" where
  "no_briefings_message st =
     join [newline]
       (([128209] @ lit '' Compiling final report for '' @ rs_company st @ lit ''...'') #
        map (\<lambda>c. lit ''No '' @ category_name c @ lit '' briefing available'')
          editor_categories @
        [no_briefings_notice])"

text \<open>
  Example environments of the editor: the compilation answers with a fixed text, the
  clean-up streams it back in two chunks, and the broadcaster never raises; a second one
  whose references cannot be formatted; one whose broadcaster always raises; and one
  whose broadcaster raises on the final notification only. Example states with a
  broadcaster.
\<close>

definition ex_env :: editor_env where
  "ex_env =
     \<lparr>compile_llm = (\<lambda>t. LlmText (lit '' Report. '')),
      sweep_llm = (\<lambda>t. Stream [Choice False (Some (lit ''Report'')),
                                Choice False (Some (lit ''. '')), Choice True None] Exhausted),
      format_references = (\<lambda>rs. Inr (lit ''Refs'')),
      send_raises = (\<lambda>evs e. False)\<rparr>"

definition ex_env_failing :: editor_env where
  "ex_env_failing = ex_env\<lparr>format_references := (\<lambda>rs. Inl ValueError)\<rparr>"

definition ex_env_raising :: editor_env where
  "ex_env_raising = ex_env\<lparr>send_raises := (\<lambda>evs e. True)\<rparr>"

definition ex_env_final_raises :: editor_env where
  "ex_env_final_raises =
     ex_env\<lparr>send_raises := (\<lambda>evs e. case e of EditorComplete t \<Rightarrow> True | _ \<Rightarrow> False)\<rparr>"

definition ex_briefed :: research_state where
  "ex_briefed = ex_final\<lparr>rs_references := [lit ''u1'']\<rparr>"

definition ex_state_ws :: research_state where
  "ex_state_ws = ex_state\<lparr>rs_ws := True\<rparr>"

definition ex_briefed_ws :: research_state where
  "ex_briefed_ws = ex_briefed\<lparr>rs_ws := True\<rparr>"

section \<open>Properties of the string functions\<close>

lemma split_sep_ne: "split_sep sep xs \<noteq> []"
  by (induction xs) (auto split: list.splits)

lemma split_sep_append:
  "split_sep sep (xs @ ys) = butlast (split_sep sep xs) @ split_sep sep (last (split_sep sep xs) @ ys)"
proof (induction xs)
  case Nil
  show ?case by simp
next
  case (Cons c cs)
  show ?case
  proof (cases "c = sep")
    case True
    then show ?thesis using Cons split_sep_ne [of sep cs] by simp
  next
    case False
    obtain p ps where ps: "split_sep sep cs = p # ps"
      using split_sep_ne [of sep cs] by (cases "split_sep sep cs") auto
    show ?thesis
    proof (cases ps)
      case Nil
      then show ?thesis using False ps Cons by (simp split: list.splits)
    next
      case (Cons q qs)
      then show ?thesis using False ps Cons.IH split_sep_ne [of sep "last (q # qs) @ ys"]
        by (simp split: list.splits)
    qed
  qed
qed

lemma split_sep_no_sep: "sep \<notin> set xs \<Longrightarrow> split_sep sep xs = [xs]"
  by (induction xs) auto

section \<open>Properties of the query generator\<close>

lemma notify_fields [simp]:
  "queries (snd (notify ws bc e st)) = queries st"
  "current_query (snd (notify ws bc e st)) = current_query st"
  "current_query_number (snd (notify ws bc e st)) = current_query_number st"
  by (simp_all add: notify_def)

lemma notify_quiet: "quiet ws bc \<Longrightarrow> fst (notify ws bc e st) = None"
  by (auto simp: notify_def quiet_def)

lemma finalize_parts_quiet:
  "quiet ws bc \<Longrightarrow>
   fst (finalize_parts ws bc ps st) = None \<and>
   queries (snd (finalize_parts ws bc ps st)) =
     queries st @ filter (\<lambda>q. q \<noteq> []) (map strip ps) \<and>
   current_query (snd (finalize_parts ws bc ps st)) = current_query st"
proof (induction ps arbitrary: st)
  case Nil
  show ?case by simp
next
  case (Cons p ps)
  show ?case
  proof (cases "strip p = []")
    case True
    then show ?thesis using Cons.IH [OF Cons.prems] by simp
  next
    case False
    let ?st1 = "st\<lparr>queries := queries st @ [strip p]\<rparr>"
    obtain st2 where n: "notify ws bc (QueryGenerated (strip p) (length (queries ?st1))) ?st1 = (None, st2)"
      using notify_quiet [OF Cons.prems]
      by (metis prod.collapse)
    have q: "queries st2 = queries st @ [strip p]"
      using arg_cong [OF n, of "\<lambda>x. queries (snd x)"] by simp
    have c: "current_query st2 = current_query st"
      using arg_cong [OF n, of "\<lambda>x. current_query (snd x)"] by simp
    show ?thesis
      using False n q c
        Cons.IH [OF Cons.prems, of "st2\<lparr>current_query_number := current_query_number st2 + 1\<rparr>"]
      by (simp add: Let_def)
  qed
qed

lemma process_content_tracks:
  assumes "quiet ws bc" and "tracks acc st"
  shows "fst (process_content ws bc c st) = None \<and>
    tracks (acc @ c) (snd (process_content ws bc c st))"
proof -
  let ?cur = "current_query st @ c"
  let ?st1 = "st\<lparr>current_query := ?cur\<rparr>"
  obtain st2 where n: "notify ws bc (QueryGenerating ?cur (current_query_number ?st1)) ?st1 = (None, st2)"
    using notify_quiet [OF assms(1)] by (metis prod.collapse)
  have q: "queries st2 = queries st"
    using arg_cong [OF n, of "\<lambda>x. queries (snd x)"] by simp
  have cq: "current_query st2 = ?cur"
    using arg_cong [OF n, of "\<lambda>x. current_query (snd x)"] by simp
  have sp: "split_sep newline (acc @ c) =
      butlast (split_sep newline acc) @ split_sep newline ?cur"
    using assms(2) split_sep_append [of newline acc c] by (simp add: tracks_def)
  have ne: "split_sep newline ?cur \<noteq> []" by (rule split_sep_ne)
  have bl: "butlast (split_sep newline (acc @ c)) =
      butlast (split_sep newline acc) @ butlast (split_sep newline ?cur)"
    using sp ne by (simp add: butlast_append)
  have la: "last (split_sep newline (acc @ c)) = last (split_sep newline ?cur)"
    using sp ne by simp
  show ?thesis
  proof (cases "newline \<in> set ?cur")
    case True
    let ?st3 = "st2\<lparr>current_query := last (split_sep newline ?cur)\<rparr>"
    have f: "fst (finalize_parts ws bc (butlast (split_sep newline ?cur)) ?st3) = None"
      "queries (snd (finalize_parts ws bc (butlast (split_sep newline ?cur)) ?st3)) =
         queries ?st3 @ filter (\<lambda>q. q \<noteq> []) (map strip (butlast (split_sep newline ?cur)))"
      "current_query (snd (finalize_parts ws bc (butlast (split_sep newline ?cur)) ?st3)) =
         current_query ?st3"
      using finalize_parts_quiet [OF assms(1), of "butlast (split_sep newline ?cur)" ?st3]
      by simp_all
    have p: "process_content ws bc c st =
        finalize_parts ws bc (butlast (split_sep newline ?cur)) ?st3"
      using True n cq by (simp add: process_content_def Let_def)
    show ?thesis
      unfolding p using f assms(2) bl la q by (simp add: tracks_def)
  next
    case False
    then have s1: "split_sep newline ?cur = [?cur]" by (rule split_sep_no_sep)
    have p: "process_content ws bc c st = (None, st2)"
      using False n cq by (simp add: process_content_def Let_def)
    show ?thesis
      unfolding p using assms(2) bl la q cq s1 by (simp add: tracks_def)
  qed
qed

lemma consume_tracks:
  "quiet ws bc \<Longrightarrow> tracks acc st \<Longrightarrow>
   fst (consume ws bc cs e st) = stream_failure cs e \<and>
   tracks (acc @ stream_text cs) (snd (consume ws bc cs e st))"
proof (induction cs arbitrary: acc st)
  case Nil
  then show ?case by (cases e) simp_all
next
  case (Cons ch cs)
  show ?case
  proof (cases ch)
    case NoChoices
    then show ?thesis using Cons.prems by simp
  next
    case (Choice stop content)
    show ?thesis
    proof (cases stop)
      case True
      then show ?thesis using Choice Cons.prems by simp
    next
      case False
      show ?thesis
      proof (cases content)
        case None
        then show ?thesis using False Choice Cons.IH [OF Cons.prems] by simp
      next
        case (Some c)
        show ?thesis
        proof (cases "c = []")
          case True
          then show ?thesis using False Choice Some Cons.IH [OF Cons.prems] by simp
        next
          case ne: False
          obtain st1 where p: "process_content ws bc c st = (None, st1)"
            and t: "tracks (acc @ c) st1"
            using process_content_tracks [OF Cons.prems, of c]
            by (metis prod.collapse)
          show ?thesis
            using False Choice Some ne p Cons.IH [OF Cons.prems(1) t] by simp
        qed
      qed
    qed
  qed
qed

lemma tracks_init: "tracks [] (init_state evs)"
  by (simp add: tracks_def init_state_def)

lemma finish_stream_queries:
  assumes "quiet ws bc" and "tracks acc st"
  shows "fst (finish_stream ws bc st) = None \<and>
    queries (snd (finish_stream ws bc st)) = nonblank_lines acc"
proof -
  let ?ps = "split_sep newline acc"
  let ?P = "\<lambda>q::pystr. q \<noteq> []"
  have "?ps \<noteq> []" by (rule split_sep_ne)
  then have "filter ?P (map strip ?ps) = filter ?P (map strip (butlast ?ps @ [last ?ps]))"
    by simp
  also have "\<dots> = filter ?P (map strip (butlast ?ps)) @
      (if strip (last ?ps) \<noteq> [] then [strip (last ?ps)] else [])"
    by simp
  finally have nb: "nonblank_lines acc = queries st @
      (if strip (current_query st) \<noteq> [] then [strip (current_query st)] else [])"
    using assms(2) by (simp add: tracks_def nonblank_lines_def)
  show ?thesis
  proof (cases "strip (current_query st) = []")
    case True
    then show ?thesis using nb by (simp add: finish_stream_def)
  next
    case False
    let ?st1 = "st\<lparr>queries := queries st @ [strip (current_query st)]\<rparr>"
    obtain st2 where n: "notify ws bc
        (QueryGenerated (strip (current_query st)) (length (queries ?st1))) ?st1 = (None, st2)"
      using notify_quiet [OF assms(1)] by (metis prod.collapse)
    have "queries st2 = queries st @ [strip (current_query st)]"
      using arg_cong [OF n, of "\<lambda>x. queries (snd x)"] by simp
    then show ?thesis using False nb n by (simp add: finish_stream_def Let_def)
  qed
qed

lemma run_attempt_quiet:
  assumes "quiet ws bc"
  shows "snd (run_attempt ws bc evs r) = attempt_result r"
proof (cases r)
  case (Stream cs e)
  obtain f st where c: "consume ws bc cs e (init_state evs) = (f, st)"
    by (cases "consume ws bc cs e (init_state evs)")
  have f: "f = stream_failure cs e" and t: "tracks (stream_text cs) st"
    using consume_tracks [OF assms tracks_init, of cs e evs] c by simp_all
  obtain g st1 where fs: "finish_stream ws bc st = (g, st1)"
    by (cases "finish_stream ws bc st")
  have "g = None" and "queries st1 = nonblank_lines (stream_text cs)"
    using finish_stream_queries [OF assms t] fs by simp_all
  then show ?thesis
    using Stream c f fs
    by (simp add: run_attempt_def attempt_result_def split: option.splits)
qed (simp_all add: run_attempt_def attempt_result_def)

lemma upt_max_retries: "[0..<max_retries] = [0, 1, 2]"
  by (simp add: max_retries_def upt_rec)

lemma length_fallback_queries: "length (fallback_queries a c y) = 4"
  by (simp add: fallback_queries_def)

lemma retry_loop_snd:
  "snd (retry_loop r bc env (a # rest) evs) =
     (case snd (run_attempt (ws_present r) bc evs (env a)) of
        Inr qs \<Rightarrow> Inr (Some qs)
      | Inl f \<Rightarrow>
          if a < max_retries - 1 then
            snd (retry_loop r bc env rest
              (fst (run_attempt (ws_present r) bc evs (env a)) @ [Sleep (retry_delay * 2 ^ a)]))
          else snd (last_failure r bc (fst (run_attempt (ws_present r) bc evs (env a)))))"
  by (simp split: prod.splits sum.splits)

lemma last_failure_quiet:
  "quiet (ws_present r) bc \<Longrightarrow>
   snd (last_failure r bc evs) =
     Inr (Some (fallback_queries (analyst_type r) (company r) (current_year r)))"
  by (auto simp: last_failure_def quiet_def Let_def)

lemma generate_queries_quiet:
  assumes "quiet (ws_present r) bc"
  shows "snd (generate_queries r bc env) =
    Inr (Some (case first_success env [0..<max_retries] of
                 Some qs \<Rightarrow> qs
               | None \<Rightarrow> fallback_queries (analyst_type r) (company r) (current_year r)))"
  unfolding generate_queries_def upt_max_retries retry_loop_snd
  by (simp add: run_attempt_quiet [OF assms] last_failure_quiet [OF assms] max_retries_def
      split: sum.splits)

text \<open>
  What a call can end with, whatever the broadcaster does: a list that is not empty and
  has at most four entries, or the exception of the broadcaster; never \<^verbatim>\<open>None\<close>.
\<close>

lemma run_attempt_Inr:
  "snd (run_attempt ws bc evs r) = Inr qs \<Longrightarrow> qs \<noteq> [] \<and> length qs \<le> 4"
  by (auto simp: run_attempt_def split: response.splits prod.splits option.splits if_splits)

lemma last_failure_outcome:
  "snd (last_failure r bc evs) = Inl BroadcastError \<or>
   snd (last_failure r bc evs) =
     Inr (Some (fallback_queries (analyst_type r) (company r) (current_year r)))"
  by (simp add: last_failure_def Let_def)

lemma retry_loop_step:
  assumes "\<And>evs'. snd (retry_loop r bc env rest evs') = Inl BroadcastError \<or>
      (\<exists>qs. snd (retry_loop r bc env rest evs') = Inr (Some qs) \<and> qs \<noteq> [] \<and> length qs \<le> 4)"
  shows "snd (retry_loop r bc env (a # rest) evs) = Inl BroadcastError \<or>
      (\<exists>qs. snd (retry_loop r bc env (a # rest) evs) = Inr (Some qs) \<and> qs \<noteq> [] \<and> length qs \<le> 4)"
proof (cases "snd (run_attempt (ws_present r) bc evs (env a))")
  case (Inl f)
  have fb: "fallback_queries (analyst_type r) (company r) (current_year r) \<noteq> []"
    using length_fallback_queries [of "analyst_type r" "company r" "current_year r"] by auto
  show ?thesis
  proof (cases "a < max_retries - 1")
    case True
    then show ?thesis unfolding retry_loop_snd using Inl assms by simp
  next
    case False
    then show ?thesis
      unfolding retry_loop_snd
      using Inl fb last_failure_outcome [of r bc "fst (run_attempt (ws_present r) bc evs (env a))"]
      by (auto simp: length_fallback_queries)
  qed
next
  case (Inr qs)
  then show ?thesis
    unfolding retry_loop_snd using run_attempt_Inr [OF Inr] by simp
qed

lemma generate_queries_outcome:
  "snd (generate_queries r bc env) = Inl BroadcastError \<or>
   (\<exists>qs. snd (generate_queries r bc env) = Inr (Some qs) \<and> qs \<noteq> [] \<and> length qs \<le> 4)"
proof -
  have 3: "snd (retry_loop r bc env [2] evs) = Inl BroadcastError \<or>
      (\<exists>qs. snd (retry_loop r bc env [2] evs) = Inr (Some qs) \<and> qs \<noteq> [] \<and> length qs \<le> 4)"
    for evs
  proof (cases "snd (run_attempt (ws_present r) bc evs (env 2))")
    case (Inl f)
    have fb: "fallback_queries (analyst_type r) (company r) (current_year r) \<noteq> []"
      using length_fallback_queries [of "analyst_type r" "company r" "current_year r"] by auto
    show ?thesis
      unfolding retry_loop_snd
      using Inl fb last_failure_outcome [of r bc "fst (run_attempt (ws_present r) bc evs (env 2))"]
      by (auto simp: length_fallback_queries max_retries_def)
  next
    case (Inr qs)
    then show ?thesis
      unfolding retry_loop_snd using run_attempt_Inr [OF Inr] by simp
  qed
  have 2: "snd (retry_loop r bc env [1, 2] evs) = Inl BroadcastError \<or>
      (\<exists>qs. snd (retry_loop r bc env [1, 2] evs) = Inr (Some qs) \<and> qs \<noteq> [] \<and> length qs \<le> 4)"
    for evs
    by (rule retry_loop_step) (rule 3)
  show ?thesis
    unfolding generate_queries_def upt_max_retries
    by (rule retry_loop_step) (rule 2)
qed

lemma ex_fallback:
  "fallback_queries (lit ''news_analyzer'') (lit ''Acme'') 2026 =
     [lit ''Acme latest news 2026'', lit ''Acme recent developments'',
      lit ''Acme press releases 2026'', lit ''Acme recent announcements'']"
proof -
  have "str_nat 2026 = lit ''2026''"
    by (simp add: str_nat.simps lit_def)
  then show ?thesis
    by (simp add: fallback_queries_def lit_def)
qed

text \<open>
  C1. The code does not keep the claim when the broadcaster raises. All three requests
  time out; the inner handler of the last attempt sends the \<^verbatim>\<open>"warning"\<close>
  notification, which raises; the outer handler sends the \<^verbatim>\<open>"error"\<close> notification,
  which raises as well and is in no \<^verbatim>\<open>try\<close>: the exception reaches the caller and
  no list is returned. With a broadcaster that never raises the same requests give the
  fallback list.
\<close>

theorem generate_queries_raises:
  "generate_queries ex_analyst_ws ex_raising ex_timeouts =
     ([Sleep 2, Sleep 4, FallbackWarning, GenerationError], Inl BroadcastError) \<and>
   generate_queries ex_analyst_ws ex_silent ex_timeouts =
     ([Sleep 2, Sleep 4, FallbackWarning],
      Inr (Some [lit ''Acme latest news 2026'', lit ''Acme recent developments'',
                 lit ''Acme press releases 2026'', lit ''Acme recent announcements'']))"
proof -
  have r: "ws_present ex_analyst_ws" "analyst_type ex_analyst_ws = lit ''news_analyzer''"
    "company ex_analyst_ws = lit ''Acme''" "current_year ex_analyst_ws = 2026"
    by (simp_all add: ex_analyst_ws_def ex_analyst_def)
  show ?thesis
    unfolding generate_queries_def upt_max_retries
    by (simp add: run_attempt_def ex_timeouts_def max_retries_def retry_delay_def
        last_failure_def Let_def r ex_raising_def ex_silent_def ex_fallback)
qed

text \<open>
  C2 (as amended). Let the broadcaster be absent or such that none of its calls raises.
  Whatever the stream of an attempt, the loop state tracks the text read: the buffer is
  what follows the last newline and the queries are the lines before it, each stripped
  of surrounding white space, blank ones skipped. An attempt whose request or stream
  raises fails; one whose stream ends without raising returns the first four stripped
  non-blank lines of the text (the trailing buffer included) when there is one, and
  fails with \<^verbatim>\<open>ValueError\<close> when there is none. The call returns the list of the
  first of its three attempts that does not fail, and the fallback list when all fail.
  In particular, when the first stream ends without raising and its text is
  \<^verbatim>\<open>"A\nB\nC"\<close>, however it is cut into tokens, the call returns
  \<^verbatim>\<open>["A", "B", "C"]\<close>.
\<close>

theorem stream_queries:
  assumes "quiet (ws_present r) bc"
  shows "(\<forall>evs cs e.
       tracks (stream_text cs) (snd (consume (ws_present r) bc cs e (init_state evs)))) \<and>
    (\<forall>evs a. snd (run_attempt (ws_present r) bc evs (env a)) = attempt_result (env a)) \<and>
    snd (generate_queries r bc env) =
      Inr (Some (case first_success env [0..<max_retries] of
                   Some qs \<Rightarrow> qs
                 | None \<Rightarrow> fallback_queries (analyst_type r) (company r) (current_year r))) \<and>
    (\<forall>cs e. env 0 = Stream cs e \<and> stream_failure cs e = None \<and>
       stream_text cs = [65, 10, 66, 10, 67] \<longrightarrow>
       snd (generate_queries r bc env) = Inr (Some [[65], [66], [67]]))"
proof (intro conjI allI impI)
  fix evs cs e
  show "tracks (stream_text cs) (snd (consume (ws_present r) bc cs e (init_state evs)))"
    using consume_tracks [OF assms tracks_init, of cs e evs] by simp
next
  fix evs a
  show "snd (run_attempt (ws_present r) bc evs (env a)) = attempt_result (env a)"
    using assms by (rule run_attempt_quiet)
next
  show g: "snd (generate_queries r bc env) =
      Inr (Some (case first_success env [0..<max_retries] of
                   Some qs \<Rightarrow> qs
                 | None \<Rightarrow> fallback_queries (analyst_type r) (company r) (current_year r)))"
    using assms by (rule generate_queries_quiet)
  fix cs e
  assume a: "env 0 = Stream cs e \<and> stream_failure cs e = None \<and>
       stream_text cs = [65, 10, 66, 10, 67]"
  have "nonblank_lines [65, 10, 66, 10, 67] = [[65], [66], [67]]"
    by (simp add: nonblank_lines_def newline_def strip_def isspace_def)
  then have "attempt_result (env 0) = Inr [[65], [66], [67]]"
    using a by (simp add: attempt_result_def)
  then show "snd (generate_queries r bc env) = Inr (Some [[65], [66], [67]])"
    unfolding g upt_max_retries by simp
qed

text \<open>
  A run of C2, with a broadcaster that never raises: the first stream holds white space
  only, so the attempt fails; the second one brings the tokens \<^verbatim>\<open>"A\n"\<close>, \<^verbatim>\<open>"B"\<close>,
  \<^verbatim>\<open>"\nC"\<close> and a stop chunk.
\<close>

theorem stream_queries_witness:
  "snd (generate_queries ex_analyst_ws ex_silent ex_retry) = Inr (Some [[65], [66], [67]])"
proof -
  have q: "quiet (ws_present ex_analyst_ws) (ex_silent :: event broadcaster)"
    by (simp add: quiet_def ex_silent_def)
  have "nonblank_lines [32, 10] = []"
    and "nonblank_lines [65, 10, 66, 10, 67] = [[65], [66], [67]]"
    by (simp_all add: nonblank_lines_def newline_def strip_def isspace_def)
  then have "first_success ex_retry [0, 1, 2] = Some [[65], [66], [67]]"
    by (simp add: ex_retry_def attempt_result_def)
  then show ?thesis
    using stream_queries [OF q, of ex_retry] unfolding upt_max_retries by simp
qed

text \<open>
  The claim as worded fails on a blank line: for the tokens \<^verbatim>\<open>"A\n"\<close>, \<^verbatim>\<open>"\nB"\<close> the
  content before the second newline is empty and is not made a query.
\<close>

theorem stream_queries_counterexample:
  "snd (generate_queries ex_analyst ex_silent ex_blank_line) = Inr (Some [[65], [66]]) \<and>
   spec_queries [65, 10, 10, 66] = [[65], [], [66]]"
proof -
  have q: "quiet (ws_present ex_analyst) (ex_silent :: event broadcaster)"
    by (simp add: quiet_def ex_silent_def)
  have "nonblank_lines [65, 10, 10, 66] = [[65], [66]]"
    by (simp add: nonblank_lines_def newline_def strip_def isspace_def)
  then have "first_success ex_blank_line [0, 1, 2] = Some [[65], [66]]"
    by (simp add: ex_blank_line_def attempt_result_def)
  then show ?thesis
    using generate_queries_quiet [OF q, of ex_blank_line] unfolding upt_max_retries
    by (simp add: spec_queries_def newline_def)
qed

section \<open>Properties of the search stage\<close>

lemma map_add_snoc: "m ++ map_of (xs @ [(k, v)]) = m(k \<mapsto> v) ++ map_of xs"
  by (rule ext) (simp add: map_add_def split: option.splits)

lemma merge_items_map:
  "map_of (merge_items ct lo q items ds) = map_of ds ++ map_of (rev (item_entries ct lo q items))"
proof (induction items arbitrary: ds)
  case Nil
  show ?case by simp
next
  case (Cons item items)
  show ?case
  proof (cases "truthy (h_content item) \<and> truthy (h_url item)")
    case True
    then obtain u c where uc: "h_url item = Val u" "h_content item = Val c" "u \<noteq> []" "c \<noteq> []"
      by (auto simp: truthy_def split: field.splits)
    let ?d = "make_doc ct lo q u c item"
    have "map_of (merge_items ct lo q (item # items) ds) =
        map_of (AList.update u ?d ds) ++ map_of (rev (item_entries ct lo q items))"
      using True uc by (simp add: Cons)
    also have "\<dots> = (map_of ds)(u \<mapsto> ?d) ++ map_of (rev (item_entries ct lo q items))"
      by (simp only: update_conv')
    also have "\<dots> = map_of ds ++ map_of (rev (item_entries ct lo q items) @ [(u, ?d)])"
      by (simp only: map_add_snoc)
    also have "rev (item_entries ct lo q items) @ [(u, ?d)] = rev (item_entries ct lo q (item # items))"
      using uc by simp
    finally show ?thesis .
  next
    case False
    then show ?thesis
      by (cases "h_url item"; cases "h_content item") (auto simp: Cons truthy_def)
  qed
qed

lemma merge_results_map:
  "map_of (merge_results ct lo qrs ds) = map_of ds ++ map_of (rev (batch_entries ct lo qrs))"
proof (induction qrs arbitrary: ds)
  case Nil
  show ?case by simp
next
  case (Cons qr qrs)
  obtain q items where qr: "qr = (q, items)" by (cases qr)
  show ?case by (simp add: qr Cons merge_items_map)
qed

lemma merge_items_distinct:
  "distinct (map fst ds) \<Longrightarrow> distinct (map fst (merge_items ct lo q items ds))"
proof (induction items arbitrary: ds)
  case Nil
  then show ?case by simp
next
  case (Cons item items)
  then show ?case
    by (cases "h_url item"; cases "h_content item") (simp_all add: truthy_def distinct_update)
qed

lemma merge_results_distinct:
  "distinct (map fst ds) \<Longrightarrow> distinct (map fst (merge_results ct lo qrs ds))"
proof (induction qrs arbitrary: ds)
  case Nil
  then show ?case by simp
next
  case (Cons qr qrs)
  obtain q items where qr: "qr = (q, items)" by (cases qr)
  show ?case using Cons by (simp add: qr merge_items_distinct)
qed

lemma item_entries_origin:
  "(u, d) \<in> set (item_entries ct lo q items) \<Longrightarrow>
   \<exists>item c. item \<in> set items \<and> h_url item = Val u \<and> h_content item = Val c \<and>
     u \<noteq> [] \<and> c \<noteq> [] \<and> d = make_doc ct lo q u c item"
proof (induction items)
  case Nil
  then show ?case by simp
next
  case (Cons item items)
  then show ?case
    by (cases "h_url item"; cases "h_content item") (auto split: if_splits)
qed

lemma batch_entries_origin:
  "(u, d) \<in> set (batch_entries ct lo qrs) \<Longrightarrow>
   \<exists>q items item c. (q, items) \<in> set qrs \<and> item \<in> set items \<and> h_url item = Val u \<and>
     h_content item = Val c \<and> u \<noteq> [] \<and> c \<noteq> [] \<and> d = make_doc ct lo q u c item"
proof (induction qrs)
  case Nil
  then show ?case by simp
next
  case (Cons qr qrs)
  obtain q items where qr: "qr = (q, items)" by (cases qr)
  from Cons.prems have "(u, d) \<in> set (item_entries ct lo q items) \<or> (u, d) \<in> set (batch_entries ct lo qrs)"
    by (simp add: qr)
  then show ?case
  proof
    assume "(u, d) \<in> set (item_entries ct lo q items)"
    from item_entries_origin [OF this] show ?thesis unfolding qr by fastforce
  next
    assume "(u, d) \<in> set (batch_entries ct lo qrs)"
    from Cons.IH [OF this] show ?thesis by fastforce
  qed
qed

lemma merged_entry_origin:
  assumes "(u, d) \<in> set (merge_results ct lo qrs [])"
  shows "(u, d) \<in> set (batch_entries ct lo qrs)"
proof -
  have "distinct (map fst (merge_results ct lo qrs []))"
    by (rule merge_results_distinct) simp
  then have "map_of (merge_results ct lo qrs []) u = Some d"
    using assms by simp
  then have "map_of (rev (batch_entries ct lo qrs)) u = Some d"
    by (simp add: merge_results_map)
  then have "(u, d) \<in> set (rev (batch_entries ct lo qrs))"
    by (rule map_of_SomeD)
  then show ?thesis by simp
qed

lemma normalize_title_blank:
  "t = Missing \<or> (\<exists>s. t = Val s \<and> (s = [] \<or> lo (ct s) = lo u \<or> strip (ct s) = [])) \<Longrightarrow>
   normalize_title ct lo u t = Some []"
  by (auto simp: normalize_title_def Let_def)

lemma search_documents_snd:
  "SearchRaises \<notin> set (map (\<lambda>q. prov q (search_topic (analyst_type r))) qs) \<Longrightarrow>
   snd (search_documents ct lo r prov qs) =
     merge_results ct lo (zip qs (map (\<lambda>q. hits_of (prov q (search_topic (analyst_type r)))) qs)) []"
  by (cases "qs = []") (simp_all add: search_documents_def Let_def comp_def)

lemma map_of_last_entry:
  "k \<notin> fst ` set post \<Longrightarrow> map_of (rev (pre @ [(k, v)] @ post)) k = Some v"
  by (simp add: map_add_def map_of_eq_None_iff [THEN iffD2] split: option.splits)

text \<open>
  C3. For every batch, whatever the provider answers: every stored document has a
  non-empty url (its key) and a non-empty content, and no url is stored twice. When no
  request raises, the stored document of a url is the one written by the last hit for it
  in the order of the queries (and, within a query, of its hits). The title of a stored
  document is that of its hit, normalised; a title is blanked to the empty string when it
  is missing, empty, equal to the url up to case after cleaning, or blank after cleaning.
\<close>

theorem merged_documents:
  fixes ct lo :: "pystr \<Rightarrow> pystr" and r :: researcher and prov :: provider
    and qs :: "pystr list"
  defines "tp \<equiv> search_topic (analyst_type r)"
  defines "merged \<equiv> snd (search_documents ct lo r prov qs)"
  defines "entries \<equiv> batch_entries ct lo (zip qs (map (\<lambda>q. hits_of (prov q tp)) qs))"
  shows "(\<forall>(u, d) \<in> set merged. url d = u \<and> u \<noteq> [] \<and> content d \<noteq> []) \<and>
    distinct (map fst merged) \<and>
    (SearchRaises \<notin> set (map (\<lambda>q. prov q tp) qs) \<longrightarrow>
       map_of merged = map_of (rev entries) \<and>
       (\<forall>pre u d post. entries = pre @ [(u, d)] @ post \<and> u \<notin> fst ` set post \<longrightarrow>
          map_of merged u = Some d)) \<and>
    (\<forall>(u, d) \<in> set merged. \<exists>q item. q \<in> set qs \<and> item \<in> set (hits_of (prov q tp)) \<and>
       h_url item = Val u \<and> query d = q \<and>
       title d = normalize_title ct lo u (h_title item)) \<and>
    (\<forall>u t. t = Missing \<or> (\<exists>s. t = Val s \<and> (s = [] \<or> lo (ct s) = lo u \<or> strip (ct s) = [])) \<longrightarrow>
       normalize_title ct lo u t = Some [])"
proof -
  let ?qrs = "zip qs (map (\<lambda>q. hits_of (prov q tp)) qs)"
  have cases: "merged = [] \<or> merged = merge_results ct lo ?qrs []"
    unfolding merged_def tp_def
    by (cases "SearchRaises \<in> set (map (\<lambda>q. prov q (search_topic (analyst_type r))) qs)")
       (simp_all add: search_documents_snd, simp add: search_documents_def Let_def)
  have origin: "\<exists>q items item c. (q, items) \<in> set ?qrs \<and> item \<in> set items \<and> h_url item = Val u \<and>
     h_content item = Val c \<and> u \<noteq> [] \<and> c \<noteq> [] \<and> d = make_doc ct lo q u c item"
    if "(u, d) \<in> set merged" for u d
  proof -
    from that cases have "(u, d) \<in> set (merge_results ct lo ?qrs [])" by auto
    then have "(u, d) \<in> set (batch_entries ct lo ?qrs)" by (rule merged_entry_origin)
    then show ?thesis by (rule batch_entries_origin)
  qed
  have zipD: "q \<in> set qs \<and> items = hits_of (prov q tp)" if "(q, items) \<in> set ?qrs" for q items
    using that by (auto simp: zip_map2 in_set_zip)
  have 1: "\<forall>(u, d) \<in> set merged. url d = u \<and> u \<noteq> [] \<and> content d \<noteq> []"
    using origin by (fastforce simp: make_doc_def)
  have 2: "distinct (map fst merged)"
    using cases merge_results_distinct [of "[]" ct lo ?qrs] by auto
  have 3: "map_of merged = map_of (rev entries) \<and>
       (\<forall>pre u d post. entries = pre @ [(u, d)] @ post \<and> u \<notin> fst ` set post \<longrightarrow>
          map_of merged u = Some d)"
    if ok: "SearchRaises \<notin> set (map (\<lambda>q. prov q tp) qs)"
  proof -
    have "merged = merge_results ct lo ?qrs []"
      using ok unfolding merged_def tp_def by (simp add: search_documents_snd)
    then have m: "map_of merged = map_of (rev entries)"
      unfolding entries_def by (simp add: merge_results_map)
    show ?thesis using m map_of_last_entry by (metis (no_types, lifting))
  qed
  have 4: "\<forall>(u, d) \<in> set merged. \<exists>q item. q \<in> set qs \<and> item \<in> set (hits_of (prov q tp)) \<and>
       h_url item = Val u \<and> query d = q \<and>
       title d = normalize_title ct lo u (h_title item)"
  proof (clarify)
    fix u d assume "(u, d) \<in> set merged"
    from origin [OF this] obtain q items item c where
      o: "(q, items) \<in> set ?qrs" "item \<in> set items" "h_url item = Val u"
         "d = make_doc ct lo q u c item"
      by blast
    from zipD [OF o(1)] o show "\<exists>q item. q \<in> set qs \<and> item \<in> set (hits_of (prov q tp)) \<and>
       h_url item = Val u \<and> query d = q \<and>
       title d = normalize_title ct lo u (h_title item)"
      by (auto simp: make_doc_def)
  qed
  have 5: "\<forall>u t. t = Missing \<or> (\<exists>s. t = Val s \<and> (s = [] \<or> lo (ct s) = lo u \<or> strip (ct s) = [])) \<longrightarrow>
       normalize_title ct lo u t = Some []"
    using normalize_title_blank by blast
  show ?thesis using 1 2 3 4 5 by blast
qed

lemma ex_topic: "search_topic (analyst_type ex_researcher) = Some TopicNews"
  by (simp add: ex_researcher_def search_topic_def)

lemma lit_neq [simp]:
  "lit ''acme latest news'' \<noteq> lit ''acme company overview''"
  "lit ''Tesla news'' \<noteq> lit ''acme company overview''"
  "lit ''Tesla news'' \<noteq> lit ''acme latest news''"
  "lit ''acme stock price'' \<noteq> lit ''acme company overview''"
  "lit ''acme stock price'' \<noteq> lit ''acme latest news''"
  "lit ''acme stock price'' \<noteq> lit ''Tesla news''"
  by (simp_all add: lit_def)

lemma ex_provider_simps [simp]:
  "ex_provider (lit ''acme company overview'') tp =
        SearchResults
          [\<lparr>h_url = Val (lit ''a.io''), h_title = Val (lit ''A.IO''),
            h_content = Val (lit ''first''), h_score = Val 0.5\<rparr>,
           \<lparr>h_url = Val (lit ''b.io''), h_title = Missing,
            h_content = Val [], h_score = Missing\<rparr>]"
  "ex_provider (lit ''acme latest news'') tp =
        SearchResults
          [\<lparr>h_url = Val (lit ''a.io''), h_title = Val (lit ''Acme''),
            h_content = Val (lit ''second''), h_score = Missing\<rparr>]"
  "ex_provider (lit ''Tesla news'') tp =
        SearchResults
          [\<lparr>h_url = Val (lit ''t.io''), h_title = Val (lit ''T.IO''),
            h_content = Val (lit ''cars''), h_score = Null\<rparr>]"
  "ex_provider (lit ''acme stock price'') tp = SearchRaises"
  by (simp_all add: ex_provider_def)

lemma lit_nonempty [simp]:
  "lit ''a.io'' \<noteq> []" "lit ''first'' \<noteq> []" "lit ''second'' \<noteq> []" "lit ''A.IO'' \<noteq> []"
  "lit ''Acme'' \<noteq> []" "lit ''t.io'' \<noteq> []" "lit ''cars'' \<noteq> []" "lit ''T.IO'' \<noteq> []"
  by (simp_all add: lit_def)

lemma ex_titles:
  "normalize_title strip ascii_lower (lit ''a.io'') (Val (lit ''A.IO'')) = Some []"
  "normalize_title strip ascii_lower (lit ''a.io'') (Val (lit ''Acme'')) = Some (lit ''Acme'')"
  "normalize_title strip ascii_lower (lit ''t.io'') (Val (lit ''T.IO'')) = Some []"
  by (simp_all add: normalize_title_def Let_def strip_def isspace_def ascii_lower_def lit_def)

text \<open>
  A run of C3: two queries hit the same url; the later query's document is the one kept,
  and the hit without content is not stored.
\<close>

theorem merged_documents_witness:
  "map_of (snd (search_documents strip ascii_lower ex_researcher ex_provider
      [lit ''acme company overview'', lit ''acme latest news''])) (lit ''a.io'') =
   Some \<lparr>title = Some (lit ''Acme''), content = lit ''second'',
         query = lit ''acme latest news'', url = lit ''a.io'', source = lit ''web_search'',
         score = Some 0\<rparr> \<and>
   map_of (snd (search_documents strip ascii_lower ex_researcher ex_provider
      [lit ''acme company overview'', lit ''acme latest news''])) (lit ''b.io'') = None"
proof -
  let ?qs = "[lit ''acme company overview'', lit ''acme latest news'']"
  have ok: "SearchRaises \<notin> set (map (\<lambda>q. ex_provider q (search_topic (analyst_type ex_researcher))) ?qs)"
    by simp
  have "map_of (snd (search_documents strip ascii_lower ex_researcher ex_provider ?qs)) =
      map_of (rev (batch_entries strip ascii_lower
        (zip ?qs (map (\<lambda>q. hits_of (ex_provider q (search_topic (analyst_type ex_researcher)))) ?qs))))"
    using merged_documents [of strip ascii_lower ex_researcher ex_provider ?qs] ok by blast
  moreover have "lit ''b.io'' \<noteq> lit ''a.io''" by (simp add: lit_def)
  ultimately show ?thesis
    by (simp add: hits_of_def make_doc_def ex_titles get_score_def)
qed

lemma split_ws_Nil: "split_ws [] = []"
  by (simp add: split_ws.simps)

lemma split_ws_space: "isspace c \<Longrightarrow> split_ws (c # cs) = split_ws cs"
  by (subst split_ws.simps, subst (2) split_ws.simps) simp

lemma split_ws_word:
  "\<not> isspace c \<Longrightarrow>
   split_ws (c # cs) =
     (c # takeWhile (\<lambda>x. \<not> isspace x) cs) # split_ws (dropWhile (\<lambda>x. \<not> isspace x) cs)"
  by (subst split_ws.simps) simp

lemma ex_word_counts:
  "length (split_ws (lit ''acme company overview'')) = 3"
  "length (split_ws (lit ''acme latest news'')) = 3"
  "length (split_ws (lit ''Tesla news'')) = 2"
  by (simp_all add: lit_def split_ws_Nil split_ws_space split_ws_word isspace_def)

lemma batch_failure:
  "SearchRaises \<in> set (map (\<lambda>q. prov q (search_topic (analyst_type r))) qs) \<Longrightarrow>
   snd (search_documents ct lo r prov qs) = []"
  by (simp add: search_documents_def Let_def)

lemma search_single_query_quiet:
  "quiet (ws_present r) bc \<Longrightarrow> prov q (search_topic (analyst_type r)) = SearchRaises \<Longrightarrow>
   snd (search_single_query ct lo r bc prov q) = Inr []"
  by (auto simp: search_single_query_def single_query_try_def quiet_def Let_def)

lemma search_single_query_rejects:
  "q = [] \<or> length (split_ws q) < 3 \<Longrightarrow>
   search_single_query ct lo r bc prov q = ([], Inr [])"
  by (simp add: search_single_query_def)

text \<open>
  C5. The code does not keep the claim for the single query when the broadcaster
  raises. The request for \<^verbatim>\<open>"acme stock price"\<close> raises; the handler sends the
  \<^verbatim>\<open>"query_error"\<close> notification before it returns the empty dictionary, the
  notification raises, and the exception reaches the caller. With a broadcaster that
  never raises the same call returns the empty dictionary.
\<close>

theorem search_single_query_raises:
  "search_single_query strip ascii_lower ex_researcher ex_error_raises ex_provider
     (lit ''acme stock price'') =
     ([QuerySearching (lit ''acme stock price''),
       ProviderRequest (lit ''acme stock price'') (Some TopicNews),
       QueryError (lit ''acme stock price'')],
      Inl BroadcastError) \<and>
   search_single_query strip ascii_lower ex_researcher ex_silent ex_provider
     (lit ''acme stock price'') =
     ([QuerySearching (lit ''acme stock price''),
       ProviderRequest (lit ''acme stock price'') (Some TopicNews),
       QueryError (lit ''acme stock price'')],
      Inr [])"
proof -
  have w: "length (split_ws (lit ''acme stock price'')) = 3" "lit ''acme stock price'' \<noteq> []"
    by (simp_all add: lit_def split_ws_Nil split_ws_space split_ws_word isspace_def)
  have r: "ws_present ex_researcher" by (simp add: ex_researcher_def)
  show ?thesis
    using w r
    by (simp add: search_single_query_def single_query_try_def Let_def ex_topic ws_events_def
        ex_error_raises_def ex_silent_def)
qed

text \<open>
  C6. \<open>search_single_query\<close> rejects the empty query and a query of fewer than three
  words before anything is sent. \<open>search_documents\<close> has no such check: for the
  two-word query \<^verbatim>\<open>"Tesla news"\<close> it sends the request and stores the hit.
\<close>

theorem search_documents_short_query:
  "search_documents strip ascii_lower ex_researcher ex_provider [lit ''Tesla news''] =
     ([QueriesGenerated 1, SearchStarted 1, ProviderRequest (lit ''Tesla news'') (Some TopicNews),
       SearchComplete 1],
      [(lit ''t.io'',
        \<lparr>title = Some [], content = lit ''cars'', query = lit ''Tesla news'',
         url = lit ''t.io'', source = lit ''web_search'', score = None\<rparr>)]) \<and>
   length (split_ws (lit ''Tesla news'')) = 2 \<and>
   search_single_query strip ascii_lower ex_researcher bc ex_provider (lit ''Tesla news'') =
     ([], Inr [])"
  by (simp add: search_documents_def search_single_query_def ex_word_counts Let_def truthy_def
      make_doc_def ex_titles get_score_def ex_topic ws_events_def hits_of_def)
     (simp add: ex_researcher_def)

section \<open>Properties of the document selection\<close>

lemma length_lit [simp]: "length (lit s) = length s"
  by (simp add: lit_def)



















section \<open>Properties of the concurrent synthesis\<close>



























section \<open>Properties of the report compiler\<close>

lemma collect_briefings_none:
  "\<forall>c \<in> set cs. rs_slot st c = None \<or> rs_slot st c = Some [] \<Longrightarrow>
   collect_briefings st cs =
     ([], map (\<lambda>c. lit ''No '' @ category_name c @ lit '' briefing available'') cs)"
  by (induction cs) (auto split: option.splits)

lemma compile_briefings_none:
  assumes "\<forall>c. rs_slot st c = None \<or> rs_slot st c = Some []"
  shows "compile_briefings env st =
    (if rs_ws st then
       (if send_raises env [] (Substep (lit ''initialization'')) then
          ([Substep (lit ''initialization'')], Inl BroadcastError)
        else if send_raises env [Substep (lit ''initialization'')]
                  (Substep (lit ''collecting_briefings'')) then
          ([Substep (lit ''initialization''), Substep (lit ''collecting_briefings'')],
           Inl BroadcastError)
        else
          ([Substep (lit ''initialization''), Substep (lit ''collecting_briefings'')],
           Inr (st\<lparr>rs_messages := rs_messages st @ [no_briefings_message st]\<rparr>)))
     else ([], Inr (st\<lparr>rs_messages := rs_messages st @ [no_briefings_message st]\<rparr>)))"
proof -
  have "collect_briefings st editor_categories =
     ([], map (\<lambda>c. lit ''No '' @ category_name c @ lit '' briefing available'') editor_categories)"
    using assms by (intro collect_briefings_none) simp
  then show ?thesis
    by (simp add: compile_briefings_def Let_def ed_send_def no_briefings_message_def)
qed

text \<open>
  C8 (as amended). Let no briefing slot hold a non-empty text, and let the broadcaster
  be absent or the two opening notifications of \<open>compile_briefings\<close> return. Then
  the call sends no compilation and no clean-up request and returns the state with one
  message appended, which lists the four missing briefings and ends with the notice
  that there is nothing to compile. The report, the editor entry and the briefing slots
  of the returned state are as they were: no report is written.
\<close>

theorem no_briefings:
  assumes "\<forall>c. rs_slot st c = None \<or> rs_slot st c = Some []"
    and "\<not> start_raises env st"
  shows "\<not> list_ex is_request (fst (compile_briefings env st)) \<and>
    snd (compile_briefings env st) =
      Inr (st\<lparr>rs_messages := rs_messages st @ [no_briefings_message st]\<rparr>) \<and>
    no_briefings_message st =
      join [newline]
        (([128209] @ lit '' Compiling final report for '' @ rs_company st @ lit ''...'') #
         map (\<lambda>c. lit ''No '' @ category_name c @ lit '' briefing available'')
           [Company, Industry, Financial, News] @
         [[newline, 9888, 65039] @ lit '' No briefing sections available to compile'']) \<and>
    (\<forall>st'. snd (compile_briefings env st) = Inr st' \<longrightarrow>
       rs_report st' = rs_report st \<and> rs_editor st' = rs_editor st \<and>
       rs_slot st' = rs_slot st)"
  using compile_briefings_none [OF assms(1), of env] assms(2)
  by (auto simp: start_raises_def is_request_def no_briefings_message_def
      editor_categories_def no_briefings_notice_def)

text \<open>
  Two runs of C8 on the example state, which has no briefing and no report: without a
  broadcaster, and with a broadcaster that never raises.
\<close>

theorem no_briefings_witness:
  "\<not> list_ex is_request (fst (compile_briefings ex_env ex_state)) \<and>
   snd (compile_briefings ex_env ex_state) =
     Inr (ex_state\<lparr>rs_messages :=
       [join [newline]
          [[128209] @ lit '' Compiling final report for Acme...'',
           lit ''No company briefing available'', lit ''No industry briefing available'',
           lit ''No financial briefing available'', lit ''No news briefing available'',
           [newline, 9888, 65039] @ lit '' No briefing sections available to compile'']]\<rparr>) \<and>
   snd (compile_briefings ex_env ex_state_ws) =
     Inr (ex_state_ws\<lparr>rs_messages := [no_briefings_message ex_state_ws]\<rparr>)"
proof -
  have 1: "\<forall>c. rs_slot ex_state c = None \<or> rs_slot ex_state c = Some []"
    by (simp add: ex_state_def)
  have 2: "\<forall>c. rs_slot ex_state_ws c = None \<or> rs_slot ex_state_ws c = Some []"
    by (simp add: ex_state_ws_def ex_state_def)
  have 3: "\<not> start_raises ex_env ex_state"
    by (simp add: start_raises_def ex_state_def)
  have 4: "\<not> start_raises ex_env ex_state_ws"
    by (simp add: start_raises_def ex_env_def)
  have 5: "rs_messages ex_state @ [no_briefings_message ex_state] =
     [join [newline]
          [[128209] @ lit '' Compiling final report for Acme...'',
           lit ''No company briefing available'', lit ''No industry briefing available'',
           lit ''No financial briefing available'', lit ''No news briefing available'',
           [newline, 9888, 65039] @ lit '' No briefing sections available to compile'']]"
    by (simp add: ex_state_def no_briefings_message_def editor_categories_def
        category_name_def no_briefings_notice_def lit_def)
  have 6: "rs_messages ex_state_ws @ [no_briefings_message ex_state_ws] =
     [no_briefings_message ex_state_ws]"
    by (simp add: ex_state_ws_def ex_state_def)
  from no_briefings [OF 1 3] no_briefings [OF 2 4]
  show ?thesis unfolding 5 6 by blast
qed

text \<open>
  The claim as worded fails: on the example state the call does not produce a report,
  the report field of the returned state is still missing.
\<close>

theorem no_briefings_counterexample:
  "snd (compile_briefings ex_env ex_state) =
     Inr (ex_state\<lparr>rs_messages := [no_briefings_message ex_state]\<rparr>) \<and>
   rs_report (ex_state\<lparr>rs_messages := [no_briefings_message ex_state]\<rparr>) = None"
proof -
  have 1: "\<forall>c. rs_slot ex_state c = None \<or> rs_slot ex_state c = Some []"
    by (simp add: ex_state_def)
  have "rs_ws ex_state = False" "rs_messages ex_state = []" "rs_report ex_state = None"
    by (simp_all add: ex_state_def)
  then show ?thesis
    using compile_briefings_none [OF 1, of ex_env] by simp
qed

lemma strip_ne: "strip t \<noteq> [] \<Longrightarrow> t \<noteq> []"
  by (auto simp: strip_def)

lemma ed_send_cases:
  "ed_send env ws evs e = (None, if ws then evs @ [e] else evs) \<and>
     \<not> (ws \<and> send_raises env evs e) \<or>
   ed_send env ws evs e = (Some BroadcastError, evs @ [e]) \<and> ws \<and> send_raises env evs e"
  by (simp add: ed_send_def)

text \<open>
  The outcomes of \<open>edit_report\<close>: the empty string with the state unchanged, or the
  state written with a text that is not blank, which is returned unless the final
  notification raises.
\<close>

lemma edit_report_cases:
  "(snd (edit_report env st bs evs) = (st, [])) \<or>
   (\<exists>t evs'. strip t \<noteq> [] \<and>
      ((snd (edit_report env st bs evs) = (write_report st t, t) \<and>
        \<not> (rs_ws st \<and> send_raises env evs' (EditorComplete t))) \<or>
       (snd (edit_report env st bs evs) = (write_report st t, []) \<and>
        rs_ws st \<and> send_raises env evs' (EditorComplete t))))"
proof -
  let ?ws = "rs_ws st"
  let ?out = "snd (edit_report env st bs evs)"
  obtain f0 evs0 where s0: "ed_send env ?ws evs (Substep (lit ''compilation'')) = (f0, evs0)"
    by (cases "ed_send env ?ws evs (Substep (lit ''compilation''))")
  obtain evs1 c where cc: "compile_content env st bs = (evs1, c)"
    by (cases "compile_content env st bs")
  show ?thesis
  proof (cases f0)
    case (Some f)
    then show ?thesis using s0 by (simp add: edit_report_def Let_def)
  next
    case None
    note f0 = None
    show ?thesis
    proof (cases c)
      case (Inl e)
      then show ?thesis using s0 f0 cc by (simp add: edit_report_def Let_def)
    next
      case (Inr t0)
      obtain f2 evs2 where
        s2: "ed_send env ?ws (evs0 @ evs1) (Substep (lit ''cleanup'')) = (f2, evs2)"
        by (cases "ed_send env ?ws (evs0 @ evs1) (Substep (lit ''cleanup''))")
      obtain f3 evs3 where s3: "ed_send env ?ws evs2 (Substep (lit ''format'')) = (f3, evs3)"
        by (cases "ed_send env ?ws evs2 (Substep (lit ''format''))")
      obtain evs4 t where cs: "content_sweep env ?ws t0 evs3 = (evs4, t)"
        by (cases "content_sweep env ?ws t0 evs3")
      consider (early) "t0 = [] \<or> f2 \<noteq> None \<or> f3 \<noteq> None \<or> strip t = []"
        | (late) "t0 \<noteq> []" "f2 = None" "f3 = None" "strip t \<noteq> []"
        by blast
      then show ?thesis
      proof cases
        case early
        then have "?out = (st, [])"
          using s0 f0 cc Inr s2 s3 cs
          by (auto simp: edit_report_def Let_def split: option.splits)
        then show ?thesis by blast
      next
        case late
        from ed_send_cases [of env ?ws evs4 "EditorComplete t"] show ?thesis
        proof (elim disjE conjE)
          assume a: "ed_send env ?ws evs4 (EditorComplete t) =
              (None, if ?ws then evs4 @ [EditorComplete t] else evs4)"
            and b: "\<not> (?ws \<and> send_raises env evs4 (EditorComplete t))"
          have "?out = (write_report st t, t)"
            using s0 f0 cc Inr s2 s3 cs late a by (simp add: edit_report_def Let_def)
          then show ?thesis using late(4) b by blast
        next
          assume a: "ed_send env ?ws evs4 (EditorComplete t) =
              (Some BroadcastError, evs4 @ [EditorComplete t])"
            and b: "?ws" "send_raises env evs4 (EditorComplete t)"
          have "?out = (write_report st t, [])"
            using s0 f0 cc Inr s2 s3 cs late a by (simp add: edit_report_def Let_def)
          then show ?thesis using late(4) b by blast
        qed
      qed
    qed
  qed
qed

lemma edit_report_early:
  "(rs_ws st \<and> send_raises env evs (Substep (lit ''compilation''))) \<or>
   isl (snd (compile_content env st bs)) \<or> snd (compile_content env st bs) = Inr [] \<Longrightarrow>
   snd (edit_report env st bs evs) = (st, [])"
  by (cases "compile_content env st bs")
     (auto simp: edit_report_def Let_def ed_send_def split: sum.splits)

lemma edit_report_blank:
  assumes "snd (compile_content env st bs) = Inr t"
    and "\<forall>evs'. strip (snd (content_sweep env (rs_ws st) t evs')) = []"
  shows "snd (edit_report env st bs evs) = (st, [])"
proof -
  obtain evs1 where cc: "compile_content env st bs = (evs1, Inr t)"
    using assms(1) by (cases "compile_content env st bs") simp
  have "strip (snd (content_sweep env (rs_ws st) t evs')) = []" for evs'
    using assms(2) by blast
  then have "\<And>evs' evs4 fr. content_sweep env (rs_ws st) t evs' = (evs4, fr) \<Longrightarrow> strip fr = []"
    by (metis snd_conv)
  then show ?thesis
    using cc
    by (auto simp: edit_report_def Let_def split: prod.splits option.splits)
qed

text \<open>
  \<open>edit_report\<close> does not raise: it returns a string in every case (its whole body
  is in a handler that returns the empty string). When it returns a text that is not
  empty, the text is not blank and the state has been written with it: the report, the
  status and the mirrored editor entry. When it returns the empty string, the state is
  unchanged, unless a broadcaster is there and the final notification raises: the state
  then holds a report that is not blank. The result is the empty string, and the state
  unchanged, when the first notification raises, when the compilation raises or returns
  the empty string, and when the cleaned text is blank.
\<close>

lemma edit_report_outcomes:
  fixes env :: editor_env and st :: research_state and bs :: "(category \<times> pystr) list"
    and evs :: "editor_event list"
  defines "st' \<equiv> fst (snd (edit_report env st bs evs))"
  defines "r \<equiv> snd (snd (edit_report env st bs evs))"
  shows "(r \<noteq> [] \<longrightarrow> strip r \<noteq> [] \<and> st' = write_report st r) \<and>
    (r = [] \<longrightarrow>
       st' = st \<or>
       (rs_ws st \<and>
        (\<exists>t evs'. strip t \<noteq> [] \<and> st' = write_report st t \<and>
           send_raises env evs' (EditorComplete t)))) \<and>
    (\<not> rs_ws st \<or> (\<forall>t evs'. \<not> send_raises env evs' (EditorComplete t)) \<longrightarrow>
       (r = [] \<longrightarrow> st' = st)) \<and>
    (rs_ws st \<and> send_raises env evs (Substep (lit ''compilation'')) \<longrightarrow> r = [] \<and> st' = st) \<and>
    (isl (snd (compile_content env st bs)) \<longrightarrow> r = [] \<and> st' = st) \<and>
    (snd (compile_content env st bs) = Inr [] \<longrightarrow> r = [] \<and> st' = st) \<and>
    (\<forall>t. snd (compile_content env st bs) = Inr t \<and>
         (\<forall>evs'. strip (snd (content_sweep env (rs_ws st) t evs')) = []) \<longrightarrow>
         r = [] \<and> st' = st) \<and>
    (\<forall>t. write_report st t =
       st\<lparr>rs_report := Some t, rs_status := Some (lit ''editor_complete''),
          rs_editor := Some (EditorDict (Some t))\<rparr>)"
proof (intro conjI)
  from edit_report_cases [of env st bs evs]
  have c: "(st' = st \<and> r = []) \<or>
     (\<exists>t evs'. strip t \<noteq> [] \<and>
        ((st' = write_report st t \<and> r = t \<and>
          \<not> (rs_ws st \<and> send_raises env evs' (EditorComplete t))) \<or>
         (st' = write_report st t \<and> r = [] \<and>
          rs_ws st \<and> send_raises env evs' (EditorComplete t))))"
    unfolding st'_def r_def by (simp add: prod_eq_iff)
  show "r \<noteq> [] \<longrightarrow> strip r \<noteq> [] \<and> st' = write_report st r"
    using c by blast
  show "r = [] \<longrightarrow>
       st' = st \<or>
       (rs_ws st \<and>
        (\<exists>t evs'. strip t \<noteq> [] \<and> st' = write_report st t \<and>
           send_raises env evs' (EditorComplete t)))"
    using c strip_ne by blast
  show "\<not> rs_ws st \<or> (\<forall>t evs'. \<not> send_raises env evs' (EditorComplete t)) \<longrightarrow>
       (r = [] \<longrightarrow> st' = st)"
    using c strip_ne by blast
  show "rs_ws st \<and> send_raises env evs (Substep (lit ''compilation'')) \<longrightarrow> r = [] \<and> st' = st"
    using edit_report_early [of st env evs bs] unfolding st'_def r_def by simp
  show "isl (snd (compile_content env st bs)) \<longrightarrow> r = [] \<and> st' = st"
    using edit_report_early [of st env evs bs] unfolding st'_def r_def by simp
  show "snd (compile_content env st bs) = Inr [] \<longrightarrow> r = [] \<and> st' = st"
    using edit_report_early [of st env evs bs] unfolding st'_def r_def by simp
  show "\<forall>t. snd (compile_content env st bs) = Inr t \<and>
         (\<forall>evs'. strip (snd (content_sweep env (rs_ws st) t evs')) = []) \<longrightarrow>
         r = [] \<and> st' = st"
    using edit_report_blank [of env st bs _ evs] unfolding st'_def r_def by simp
  show "\<forall>t. write_report st t =
       st\<lparr>rs_report := Some t, rs_status := Some (lit ''editor_complete''),
          rs_editor := Some (EditorDict (Some t))\<rparr>"
    by (simp add: write_report_def)
qed

lemma ex_compile:
  "snd (compile_content ex_env ex_briefed [(Financial, lit ''funding'')]) =
     Inr (lit ''Report.'' @ [newline, newline] @ lit ''Refs'')"
  "snd (compile_content ex_env_failing ex_briefed [(Financial, lit ''funding'')]) =
     Inl ValueError"
proof -
  have "strip (lit '' Report. '') = lit ''Report.''" "lit ''Refs'' \<noteq> []"
    by (simp_all add: strip_def lit_def isspace_def)
  then show "snd (compile_content ex_env ex_briefed [(Financial, lit ''funding'')]) =
     Inr (lit ''Report.'' @ [newline, newline] @ lit ''Refs'')"
    by (simp add: compile_content_def ex_env_def ex_briefed_def Let_def)
  show "snd (compile_content ex_env_failing ex_briefed [(Financial, lit ''funding'')]) =
     Inl ValueError"
    by (simp add: compile_content_def ex_env_failing_def ex_briefed_def Let_def)
qed

lemma ex_sweep: "snd (content_sweep ex_env False t evs) = lit ''Report.''"
  by (simp add: content_sweep_def ex_env_def ed_send_def has_boundary_def newline_def lit_def
      strip_def isspace_def)

lemma ex_edit_report:
  "snd (snd (edit_report ex_env ex_briefed [(Financial, lit ''funding'')] [])) =
     lit ''Report.'' \<and>
   fst (snd (edit_report ex_env ex_briefed [(Financial, lit ''funding'')] [])) =
     ex_briefed\<lparr>rs_report := Some (lit ''Report.''),
                rs_status := Some (lit ''editor_complete''),
                rs_editor := Some (EditorDict (Some (lit ''Report.'')))\<rparr> \<and>
   snd (snd (edit_report ex_env_failing ex_briefed [(Financial, lit ''funding'')] [])) = [] \<and>
   fst (snd (edit_report ex_env_failing ex_briefed [(Financial, lit ''funding'')] [])) =
     ex_briefed"
proof -
  let ?bs = "[(Financial, lit ''funding'')]"
  have ws: "rs_ws ex_briefed = False"
    by (simp add: ex_briefed_def ex_final_def ex_state_def)
  obtain evs where c: "compile_content ex_env ex_briefed ?bs =
      (evs, Inr (lit ''Report.'' @ [newline, newline] @ lit ''Refs''))"
    using ex_compile(1) by (metis prod.collapse)
  obtain evs' where s: "content_sweep ex_env False
      (lit ''Report.'' @ newline # newline # lit ''Refs'') evs = (evs', lit ''Report.'')"
    using ex_sweep by (metis prod.collapse)
  have ne: "strip (lit ''Report.'') \<noteq> []" "lit ''Report.'' \<noteq> []"
    by (simp_all add: strip_def lit_def isspace_def)
  have r: "snd (snd (edit_report ex_env ex_briefed ?bs [])) = lit ''Report.''"
    using ne by (simp add: edit_report_def Let_def ed_send_def ws c s)
  have ok: "fst (snd (edit_report ex_env ex_briefed ?bs [])) =
     ex_briefed\<lparr>rs_report := Some (lit ''Report.''),
                rs_status := Some (lit ''editor_complete''),
                rs_editor := Some (EditorDict (Some (lit ''Report.'')))\<rparr>"
    using edit_report_outcomes [of ex_env ex_briefed ?bs "[]"] ne(2) unfolding r
    by (simp add: write_report_def)
  have "isl (snd (compile_content ex_env_failing ex_briefed ?bs))"
    by (simp add: ex_compile(2))
  then have bad: "snd (snd (edit_report ex_env_failing ex_briefed ?bs [])) = [] \<and>
     fst (snd (edit_report ex_env_failing ex_briefed ?bs [])) = ex_briefed"
    using edit_report_outcomes [of ex_env_failing ex_briefed ?bs "[]"] by blast
  show ?thesis using r ok bad by blast
qed

lemma ex_compile_ws:
  "compile_content ex_env_final_raises ex_briefed_ws [(Financial, lit ''funding'')] =
     ([CompileRequest (lit ''funding'')],
      Inr (lit ''Report.'' @ [newline, newline] @ lit ''Refs''))"
proof -
  have "strip (lit '' Report. '') = lit ''Report.''" "lit ''Refs'' \<noteq> []"
    by (simp_all add: strip_def lit_def isspace_def)
  then show ?thesis
    by (simp add: compile_content_def ex_env_final_raises_def ex_env_def ex_briefed_ws_def
        ex_briefed_def Let_def)
qed

lemma ex_sweep_ws: "snd (content_sweep ex_env_final_raises True t evs) = lit ''Report.''"
  by (simp add: content_sweep_def ex_env_final_raises_def ex_env_def ed_send_def
      has_boundary_def newline_def lit_def strip_def isspace_def)

text \<open>
  C10. The code does not keep the claim when the final notification raises. The state
  has one briefing, one reference, a broadcaster and no report; the compilation and the
  clean-up succeed and the report is written to the state; then the
  \<^verbatim>\<open>"editor_complete"\<close> notification raises inside the \<^verbatim>\<open>try\<close>, so the handler returns
  the empty string, and the state keeps the report and the editor entry. On the other
  failure paths the state is left as it was: when the references cannot be formatted,
  the same call returns the empty string and the same state.
\<close>

theorem edit_report_final_notification:
  "snd (edit_report ex_env_final_raises ex_briefed_ws [(Financial, lit ''funding'')] []) =
     (ex_briefed_ws\<lparr>rs_report := Some (lit ''Report.''),
                   rs_status := Some (lit ''editor_complete''),
                   rs_editor := Some (EditorDict (Some (lit ''Report.'')))\<rparr>, []) \<and>
   rs_report ex_briefed_ws = None \<and> rs_editor ex_briefed_ws = None \<and>
   snd (edit_report ex_env_failing ex_briefed [(Financial, lit ''funding'')] []) =
     (ex_briefed, [])"
proof -
  let ?bs = "[(Financial, lit ''funding'')]"
  let ?evs3 = "[Substep (lit ''compilation''), CompileRequest (lit ''funding''),
      Substep (lit ''cleanup''), Substep (lit ''format'')]"
  have ws: "rs_ws ex_briefed_ws = True" and rep: "rs_report ex_briefed_ws = None"
    and ed: "rs_editor ex_briefed_ws = None"
    by (simp_all add: ex_briefed_ws_def ex_briefed_def ex_final_def ex_state_def)
  have q: "\<not> send_raises ex_env_final_raises evs (Substep x)"
    "send_raises ex_env_final_raises evs (EditorComplete y)" for evs x y
    by (simp_all add: ex_env_final_raises_def)
  obtain evs4 where s: "content_sweep ex_env_final_raises True
      (lit ''Report.'' @ newline # newline # lit ''Refs'') ?evs3 = (evs4, lit ''Report.'')"
    using ex_sweep_ws by (metis prod.collapse)
  have ne: "strip (lit ''Report.'') \<noteq> []" "lit ''Report.'' \<noteq> []"
    by (simp_all add: strip_def lit_def isspace_def)
  have 1: "snd (edit_report ex_env_final_raises ex_briefed_ws ?bs []) =
      (write_report ex_briefed_ws (lit ''Report.''), [])"
    using ne by (simp add: edit_report_def Let_def ed_send_def ws q ex_compile_ws s)
  have 2: "snd (edit_report ex_env_failing ex_briefed ?bs []) = (ex_briefed, [])"
    using ex_edit_report by (simp add: prod_eq_iff)
  show ?thesis using 1 2 rep ed by (simp add: write_report_def)
qed

end
